theory Spec2Isabelle
  imports Complex_Main "HOL-Library.Sublist" "HOL-Library.Multiset" "HOL-Library.Log_Nat"
begin

section \<open>Floating point numbers\<close>

text \<open>
  The numbers of pandas and numpy are IEEE 754 binary64 values. A finite one is read as
  the real number it denotes: an integer of magnitude below \<open>2 ^ 53\<close> times a power of two
  that is at least \<open>2 ^ - 1074\<close>, of magnitude below \<open>2 ^ 1024\<close>. The sign of zero is not
  kept. An operation computes the exact real result and rounds it to the nearest such
  number, to the one with the even integer when two are equally near.

  \<open>round_half_even\<close> rounds a real to an integer. \<open>exponent_of\<close> is the exponent of a
  positive real \<open>x\<close>, the integer \<open>e\<close> with \<open>2 ^ e \<le> x < 2 ^ (e + 1)\<close>, read off the length in
  bits of the integer part of \<open>x\<close> or of \<open>1 / x\<close>. \<open>round64\<close> rounds to 53 significant
  bits, and to a multiple of \<open>2 ^ - 1074\<close> in the range of the subnormal numbers; it is
  the rounding of an operation when the range of the exponent is not exceeded upwards.
\<close>

definition round_half_even :: "real \<Rightarrow> int" where
  "round_half_even y =
     (let f = \<lfloor>y\<rfloor>; d = y - of_int f
      in if d < 1 / 2 then f else if 1 / 2 < d then f + 1 else if even f then f else f + 1)"

definition pow2 :: "int \<Rightarrow> real" where
  "pow2 e = (if 0 \<le> e then 2 ^ nat e else 1 / 2 ^ nat (- e))"

definition exponent_of :: "real \<Rightarrow> int" where
  "exponent_of x = (if 1 \<le> x then bitlen \<lfloor>x\<rfloor> - 1 else - bitlen (\<lceil>1 / x\<rceil> - 1))"

definition round64 :: "real \<Rightarrow> real" where
  "round64 x =
     (if x = 0 then 0
      else let e = max (exponent_of \<bar>x\<bar> - 52) (- 1074);
               r = of_int (round_half_even (\<bar>x\<bar> / pow2 e)) * pow2 e
           in if x < 0 then - r else r)"

text \<open>
  A float64 value is finite, an infinity (\<open>Infinite True\<close> is \<open>inf\<close>, \<open>Infinite False\<close> is
  \<open>-inf\<close>) or \<open>NaN\<close>. A result that rounds to a magnitude of \<open>2 ^ 1024\<close> or more is an
  infinity.
\<close>

datatype double = Finite real | Infinite bool | NaN

definition to_double :: "real \<Rightarrow> double" where
  "to_double x = (let r = round64 x in if 2 ^ 1024 \<le> \<bar>r\<bar> then Infinite (0 < x) else Finite r)"

text \<open>The order in which numpy sorts: \<open>-inf\<close> first, \<open>inf\<close> after the finite values, \<open>NaN\<close> last.\<close>

fun double_le :: "double \<Rightarrow> double \<Rightarrow> bool" where
  "double_le (Finite x) (Finite y) = (x \<le> y)"
| "double_le (Finite x) (Infinite t) = t"
| "double_le (Infinite s) (Finite y) = (\<not> s)"
| "double_le (Infinite s) (Infinite t) = (\<not> s \<or> t)"
| "double_le NaN (Finite y) = False"
| "double_le NaN (Infinite t) = False"
| "double_le a NaN = True"

instantiation double :: linorder
begin

definition less_eq_double :: "double \<Rightarrow> double \<Rightarrow> bool" where
  "less_eq_double a b = double_le a b"

definition less_double :: "double \<Rightarrow> double \<Rightarrow> bool" where
  "less_double a b = (double_le a b \<and> \<not> double_le b a)"

instance
proof
  fix a b c :: double
  show "(a < b) = (a \<le> b \<and> \<not> b \<le> a)"
    by (simp add: less_double_def less_eq_double_def)
  show "a \<le> a"
    by (cases a) (simp_all add: less_eq_double_def)
  show "a \<le> b \<Longrightarrow> b \<le> c \<Longrightarrow> a \<le> c"
    by (cases a; cases b; cases c) (auto simp add: less_eq_double_def)
  show "a \<le> b \<Longrightarrow> b \<le> a \<Longrightarrow> a = b"
    by (cases a; cases b) (auto simp add: less_eq_double_def)
  show "a \<le> b \<or> b \<le> a"
    by (cases a; cases b) (auto simp add: less_eq_double_def)
qed

end

text \<open>
  The sum of two float64 values, and their mean as \<open>np.mean\<close> takes it: the sum, which
  may overflow, divided by two.
\<close>

definition double_add :: "double \<Rightarrow> double \<Rightarrow> double" where
  "double_add a b =
     (case (a, b) of
        (Finite x, Finite y) \<Rightarrow> to_double (x + y)
      | (Finite x, Infinite t) \<Rightarrow> Infinite t
      | (Infinite s, Finite y) \<Rightarrow> Infinite s
      | (Infinite s, Infinite t) \<Rightarrow> if s = t then Infinite s else NaN
      | _ \<Rightarrow> NaN)"

definition double_mean :: "double \<Rightarrow> double \<Rightarrow> double" where
  "double_mean a b = (case double_add a b of Finite s \<Rightarrow> Finite (round64 (s / 2)) | d \<Rightarrow> d)"

section \<open>Values, records and frames\<close>

text \<open>
  The sentencing endpoint works on pandas data frames. A frame is modelled by its list
  of column names and its list of rows; a row gives every column name a cell. A cell is
  a string, a Python integer, a float, a boolean or the missing value (\<open>None\<close> or \<open>NaN\<close>,
  which pandas treats alike in \<open>notnull\<close>, \<open>dropna\<close>, \<open>map\<close> and \<open>value_counts\<close>). A float
  cell is finite (\<open>Num\<close>) or an infinity (\<open>Infinity True\<close> is \<open>inf\<close>); the float \<open>NaN\<close> is the
  missing value. An integer cell holds a Python integer of any size.

  A batch of case records is a frame that carries the columns of the request schema, so
  a column lookup never fails on it.

  A row also carries the label that the index of the frame gives it. The label is held
  under the name \<open>index\<close>, which is no column of a frame; selecting rows, dropping columns
  and assigning to a column keep the label of every row they keep.
\<close>

datatype cell = Str string | Integer int | Num real | Infinity bool | Flag bool | Null

type_synonym row = "string \<Rightarrow> cell"

record frame =
  columns :: "string list"
  rows :: "row list"

definition label :: "row \<Rightarrow> cell" where
  "label r = r ''index''"

text \<open>
  An element of the array of percentiles, which is finite or \<open>NaN\<close>: \<open>None\<close> is \<open>NaN\<close>.
\<close>

type_synonym float64 = "real option"

text \<open>The cell that holds a float64 value.\<close>

definition cell_of :: "double \<Rightarrow> cell" where
  "cell_of v = (case v of Finite x \<Rightarrow> Num x | Infinite s \<Rightarrow> Infinity s | NaN \<Rightarrow> Null)"

datatype exn = ValueError | TypeError | OverflowError | FileNotFoundError

text \<open>
  \<open>float(i)\<close> of a Python integer: the nearest float64, and \<open>OverflowError\<close> when that
  is beyond the largest one.
\<close>

definition float_of_int :: "int \<Rightarrow> exn + double" where
  "float_of_int i =
     (case to_double (of_int i) of Infinite s \<Rightarrow> Inl OverflowError | d \<Rightarrow> Inr d)"

section \<open>The request schema\<close>

text \<open>
  The body of a request is a JSON value. \<open>PREDICT_SCHEMA\<close> is a dictionary schema of
  the \<open>schema\<close> package: a type (\<open>int\<close>, \<open>float\<close>, \<open>bool\<close>, \<open>str\<close>) accepts the values of
  that type, where a boolean is not taken for an \<open>int\<close>; \<open>None\<close> accepts \<open>null\<close>; the
  callable \<open>len\<close> accepts a value of non-zero length and rejects a value that has no
  length; \<open>And\<close> needs all of its parts and \<open>Or\<close> one of them. A dictionary validates
  when all of its keys are keys of the schema with valid values and no key of the
  schema is missing. Validation raises \<open>SchemaError\<close> otherwise, which \<open>predict\<close>
  catches.
\<close>

datatype json =
  JNull | JBool bool | JInt int | JFloat double | JStr string
  | JList "json list" | JDict "(string \<times> json) list"

datatype schema =
  Type_int | Type_float | Type_bool | Type_str | Literal_None | Callable_len
  | And "schema list" | Or "schema list"

primrec validates :: "schema \<Rightarrow> json \<Rightarrow> bool" where
  "validates Type_int j = (case j of JInt _ \<Rightarrow> True | _ \<Rightarrow> False)"
| "validates Type_float j = (case j of JFloat _ \<Rightarrow> True | _ \<Rightarrow> False)"
| "validates Type_bool j = (case j of JBool _ \<Rightarrow> True | _ \<Rightarrow> False)"
| "validates Type_str j = (case j of JStr _ \<Rightarrow> True | _ \<Rightarrow> False)"
| "validates Literal_None j = (j = JNull)"
| "validates Callable_len j =
     (case j of JStr s \<Rightarrow> s \<noteq> [] | JList xs \<Rightarrow> xs \<noteq> [] | JDict kvs \<Rightarrow> kvs \<noteq> []
      | _ \<Rightarrow> False)"
| "validates (And ss) j = list_all id (map (\<lambda>s. validates s j) ss)"
| "validates (Or ss) j = list_ex id (map (\<lambda>s. validates s j) ss)"

definition PREDICT_SCHEMA :: "(string \<times> schema) list" where
  "PREDICT_SCHEMA =
    [(''CHARGE_COUNT'', Type_int),
     (''CHARGE_DISPOSITION'', And [Type_str, Callable_len]),
     (''UPDATED_OFFENSE_CATEGORY'', And [Type_str, Callable_len]),
     (''PRIMARY_CHARGE_FLAG'', Type_bool),
     (''DISPOSITION_CHARGED_OFFENSE_TITLE'', And [Type_str, Callable_len]),
     (''DISPOSITION_CHARGED_CLASS'', And [Type_str, Callable_len]),
     (''SENTENCE_JUDGE'', And [Type_str, Callable_len]),
     (''SENTENCE_PHASE'', And [Type_str, Callable_len]),
     (''COMMITMENT_TERM'', Or [And [Type_str, Callable_len], Type_int, Type_float]),
     (''COMMITMENT_UNIT'', And [Type_str, Callable_len]),
     (''LENGTH_OF_CASE_in_Days'', Or [Type_float, Type_int]),
     (''AGE_AT_INCIDENT'', Or [Type_float, Type_int]),
     (''RACE'', And [Type_str, Callable_len]),
     (''GENDER'', And [Type_str, Callable_len]),
     (''INCIDENT_CITY'', Or [And [Type_str, Callable_len], Literal_None]),
     (''LAW_ENFORCEMENT_AGENCY'', And [Type_str, Callable_len]),
     (''LAW_ENFORCEMENT_UNIT'', Or [And [Type_str, Callable_len], Literal_None]),
     (''SENTENCE_TYPE'', And [Type_str, Callable_len])]"

text \<open>The schema of the server's route names the offense category differently.\<close>

definition PREDICT_SCHEMA_server :: "(string \<times> schema) list" where
  "PREDICT_SCHEMA_server =
    [(''CHARGE_COUNT'', Type_int),
     (''CHARGE_DISPOSITION'', And [Type_str, Callable_len]),
     (''OFFENSE_CATEGORY'', And [Type_str, Callable_len]),
     (''PRIMARY_CHARGE_FLAG'', Type_bool),
     (''DISPOSITION_CHARGED_OFFENSE_TITLE'', And [Type_str, Callable_len]),
     (''DISPOSITION_CHARGED_CLASS'', And [Type_str, Callable_len]),
     (''SENTENCE_JUDGE'', And [Type_str, Callable_len]),
     (''SENTENCE_PHASE'', And [Type_str, Callable_len]),
     (''COMMITMENT_TERM'', Or [And [Type_str, Callable_len], Type_int, Type_float]),
     (''COMMITMENT_UNIT'', And [Type_str, Callable_len]),
     (''LENGTH_OF_CASE_in_Days'', Or [Type_float, Type_int]),
     (''AGE_AT_INCIDENT'', Or [Type_float, Type_int]),
     (''RACE'', And [Type_str, Callable_len]),
     (''GENDER'', And [Type_str, Callable_len]),
     (''INCIDENT_CITY'', Or [And [Type_str, Callable_len], Literal_None]),
     (''LAW_ENFORCEMENT_AGENCY'', And [Type_str, Callable_len]),
     (''LAW_ENFORCEMENT_UNIT'', Or [And [Type_str, Callable_len], Literal_None]),
     (''SENTENCE_TYPE'', And [Type_str, Callable_len])]"

definition schema_validate ::
  "(string \<times> schema) list \<Rightarrow> json \<Rightarrow> (string \<times> json) list option" where
  "schema_validate sch request =
     (case request of
        JDict kvs \<Rightarrow>
          if list_all (\<lambda>(k, v). case map_of sch k of None \<Rightarrow> False
                                  | Some s \<Rightarrow> validates s v) kvs
             \<and> list_all (\<lambda>k. k \<in> set (map fst kvs)) (map fst sch)
          then Some kvs else None
      | _ \<Rightarrow> None)"

section \<open>Frames\<close>

text \<open>
  \<open>pd.DataFrame\<close> builds a frame with a \<open>RangeIndex\<close>: its rows are labelled 0, 1, 2
  and so on.
\<close>

definition RangeIndex :: "row list \<Rightarrow> row list" where
  "RangeIndex rs = map2 (\<lambda>i r. r(''index'' := Integer (int i))) [0 ..< length rs] rs"

definition DataFrame :: "string list \<Rightarrow> row list \<Rightarrow> frame" where
  "DataFrame cols rs = \<lparr>columns = cols, rows = RangeIndex rs\<rparr>"

text \<open>The columns of a batch of case records, for the notebook and for the server.\<close>

definition PREDICT_COLUMNS :: "string list" where
  "PREDICT_COLUMNS = map fst PREDICT_SCHEMA"

definition PREDICT_COLUMNS_server :: "string list" where
  "PREDICT_COLUMNS_server = map fst PREDICT_SCHEMA_server"

text \<open>\<open>data.loc[mask, :]\<close>: the rows the mask selects.\<close>

definition loc :: "(row \<Rightarrow> bool) \<Rightarrow> frame \<Rightarrow> frame" where
  "loc selected data = data\<lparr>rows := filter selected (rows data)\<rparr>"

text \<open>\<open>data.drop(names, axis=1)\<close>: the frame without the named columns.\<close>

definition drop_columns :: "string list \<Rightarrow> frame \<Rightarrow> frame" where
  "drop_columns names data =
     \<lparr>columns = filter (\<lambda>c. c \<notin> set names) (columns data),
      rows = map (\<lambda>r c. if c \<in> set names then Null else r c) (rows data)\<rparr>"

text \<open>\<open>data[name] = f(data)\<close>, row by row.\<close>

definition assign :: "string \<Rightarrow> (row \<Rightarrow> cell) \<Rightarrow> frame \<Rightarrow> frame" where
  "assign name f data = data\<lparr>rows := map (\<lambda>r. r(name := f r)) (rows data)\<rparr>"

text \<open>\<open>data.loc[mask, name] = value\<close>.\<close>

definition loc_assign :: "(row \<Rightarrow> bool) \<Rightarrow> string \<Rightarrow> cell \<Rightarrow> frame \<Rightarrow> frame" where
  "loc_assign selected name v data =
     data\<lparr>rows := map (\<lambda>r. if selected r then r(name := v) else r) (rows data)\<rparr>"

text \<open>\<open>series.map(dict)\<close>: a cell that is no key of the dictionary becomes missing.\<close>

definition series_map :: "(string \<rightharpoonup> string) \<Rightarrow> cell \<Rightarrow> cell" where
  "series_map d c =
     (case c of Str s \<Rightarrow> (case d s of Some v \<Rightarrow> Str v | None \<Rightarrow> Null) | _ \<Rightarrow> Null)"

definition isin :: "cell \<Rightarrow> cell list \<Rightarrow> bool" where
  "isin c vs = (c \<in> set vs)"

text \<open>\<open>data.dropna(axis=0)\<close>: the rows with no missing cell in any column.\<close>

definition dropna :: "frame \<Rightarrow> frame" where
  "dropna data = loc (\<lambda>r. list_all (\<lambda>c. r c \<noteq> Null) (columns data)) data"

text \<open>
  \<open>series.astype(float)\<close> on one cell. A string goes through Python's \<open>float\<close>, a
  parameter of the model: \<open>None\<close> where \<open>float\<close> raises \<open>ValueError\<close>, and otherwise the
  float64 value it reads, which may be an infinity or \<open>NaN\<close>. A Python integer is rounded
  to the nearest float64; one beyond the range of float64 raises \<open>OverflowError\<close>.
\<close>

definition astype_float :: "(string \<Rightarrow> double option) \<Rightarrow> cell \<Rightarrow> exn + cell" where
  "astype_float float c =
     (case c of
        Str s \<Rightarrow> (case float s of None \<Rightarrow> Inl ValueError | Some v \<Rightarrow> Inr (cell_of v))
      | Integer i \<Rightarrow> (case float_of_int i of Inl e \<Rightarrow> Inl e | Inr v \<Rightarrow> Inr (cell_of v))
      | Num x \<Rightarrow> Inr (Num x)
      | Infinity s \<Rightarrow> Inr (Infinity s)
      | Flag b \<Rightarrow> Inr (Num (if b then 1 else 0))
      | Null \<Rightarrow> Inr Null)"

text \<open>
  The conversion of a whole column raises when the conversion of one cell does, with
  the exception of the first such cell.
\<close>

primrec astype_column ::
  "(string \<Rightarrow> double option) \<Rightarrow> string \<Rightarrow> row list \<Rightarrow> exn + row list" where
  "astype_column float name [] = Inr []"
| "astype_column float name (r # rs) =
     (case astype_float float (r name) of
        Inl e \<Rightarrow> Inl e
      | Inr v \<Rightarrow> (case astype_column float name rs of
                    Inl e \<Rightarrow> Inl e
                  | Inr rs' \<Rightarrow> Inr (r(name := v) # rs')))"

text \<open>
  A float column divided by a number: the quotient is rounded, an infinity stays what
  it is, a missing cell stays missing. The column was converted before, so its cells
  are floats or missing. The divisors of the cleaning are 1, 12 and 365; a finite float
  divided by a number of at least 1 is within the range of float64, so the rounding of
  the quotient does not overflow.
\<close>

definition cell_div :: "cell \<Rightarrow> real \<Rightarrow> cell" where
  "cell_div c d =
     (case c of Num x \<Rightarrow> Num (round64 (x / d)) | Infinity s \<Rightarrow> Infinity s | _ \<Rightarrow> Null)"

text \<open>\<open>series.clip(upper=u)\<close> on one cell.\<close>

definition cell_clip_upper :: "real \<Rightarrow> cell \<Rightarrow> cell" where
  "cell_clip_upper u c =
     (case c of Num x \<Rightarrow> Num (min x u) | Infinity s \<Rightarrow> (if s then Num u else Infinity s)
      | _ \<Rightarrow> c)"

text \<open>
  \<open>series.median()\<close> skips the missing cells and converts the others to float64: a
  boolean counts as 0 or 1, and a Python integer beyond the range of float64 raises
  \<open>OverflowError\<close>. The schema makes the ages numbers; on a string the model raises
  \<open>TypeError\<close>, as pandas does on a string that is no numeral. The median is the middle
  one of the sorted values, or the mean of the two in the middle; of no value at all it
  is \<open>NaN\<close>.
\<close>

primrec floats_of :: "cell list \<Rightarrow> exn + double list" where
  "floats_of [] = Inr []"
| "floats_of (c # cs) =
     (case floats_of cs of
        Inl e \<Rightarrow> Inl e
      | Inr vs \<Rightarrow>
          (case c of
             Num x \<Rightarrow> Inr (Finite x # vs)
           | Infinity s \<Rightarrow> Inr (Infinite s # vs)
           | Flag b \<Rightarrow> Inr (Finite (if b then 1 else 0) # vs)
           | Integer i \<Rightarrow> (case float_of_int i of Inl e \<Rightarrow> Inl e | Inr v \<Rightarrow> Inr (v # vs))
           | _ \<Rightarrow> Inr vs))"

definition numbers_of :: "cell list \<Rightarrow> exn + double list" where
  "numbers_of cs =
     (if list_ex (\<lambda>c. case c of Str _ \<Rightarrow> True | _ \<Rightarrow> False) cs then Inl TypeError
      else floats_of cs)"

definition median_sorted :: "double list \<Rightarrow> double" where
  "median_sorted xs =
     (let n = length xs in
      if n = 0 then NaN
      else if odd n then xs ! (n div 2)
      else double_mean (xs ! (n div 2 - 1)) (xs ! (n div 2)))"

definition median :: "cell list \<Rightarrow> exn + double" where
  "median cs =
     (case numbers_of cs of Inl e \<Rightarrow> Inl e | Inr xs \<Rightarrow> Inr (median_sorted (sort xs)))"

text \<open>
  \<open>series.value_counts()\<close>: the values that are not missing with the number of their
  occurrences, the most frequent first. Here values of the same frequency stay in the
  order of their first occurrence; the order pandas gives them depends on its version,
  and the properties below hold for any.
\<close>

fun unique :: "'a list \<Rightarrow> 'a list" where
  "unique [] = []"
| "unique (x # xs) = x # unique (filter (\<lambda>y. y \<noteq> x) xs)"

definition value_counts :: "cell list \<Rightarrow> (cell \<times> nat) list" where
  "value_counts cs =
     (let vals = filter (\<lambda>c. c \<noteq> Null) cs
      in sort_key (\<lambda>(v, k). - int k) (map (\<lambda>v. (v, count_list vals v)) (unique vals)))"

section \<open>The cleaning steps\<close>

definition standard_race_map :: "string \<rightharpoonup> string" where
  "standard_race_map = map_of
    [(''Black'', ''Black''),
     (''White'', ''White''),
     (''HISPANIC'', ''HISPANIC''),
     (''White [Hispanic or Latino]'', ''HISPANIC''),
     (''White/Black [Hispanic or Latino]'', ''HISPANIC''),
     (''ASIAN'', ''Asian''),
     (''Asian'', ''Asian''),
     (''American Indian'', ''American Indian''),
     (''Unknown'', ''Unknown''),
     (''Biracial'', ''Black'')]"

definition exclude_non_prison :: "bool \<Rightarrow> frame \<Rightarrow> frame" where
  "exclude_non_prison removeColumns data =
     (let data = loc (\<lambda>r. r ''SENTENCE_TYPE'' = Str ''Prison'') data
      in if removeColumns then drop_columns [''SENTENCE_TYPE''] data else data)"

definition standardize_race :: "frame \<Rightarrow> frame" where
  "standardize_race data =
     (let data = assign ''RACE'' (\<lambda>r. series_map standard_race_map (r ''RACE'')) data;
          data = loc (\<lambda>r. r ''RACE'' \<noteq> Str ''Unknown'') data
      in loc (\<lambda>r. r ''RACE'' \<noteq> Null) data)"

definition standardize_gender :: "frame \<Rightarrow> frame" where
  "standardize_gender data =
     loc_assign (\<lambda>r. \<not> isin (r ''GENDER'') [Str ''Male'', Str ''Female''])
       ''GENDER'' (Str ''Unknown'') data"

definition commitment_term_units :: "cell list" where
  "commitment_term_units = [Str ''Year(s)'', Str ''Months'', Str ''Natural Life'', Str ''Days'']"

definition term_divisors :: "cell \<rightharpoonup> real" where
  "term_divisors = map_of [(Str ''Year(s)'', 1), (Str ''Months'', 12), (Str ''Days'', 365)]"

text \<open>\<open>data['COMMITMENT_UNIT'].map(term_divisors).fillna(1)\<close> on one cell.\<close>

definition divisor_col :: "cell \<Rightarrow> real" where
  "divisor_col unit = (case term_divisors unit of Some d \<Rightarrow> d | None \<Rightarrow> 1)"

text \<open>
  The years of a natural life term: 78 less the median age of the rows whose unit is
  natural life, written into the term of each of these rows. The difference is rounded;
  78 less a finite float64 is within the range of float64.
\<close>

definition natural_life_years_of :: "double \<Rightarrow> cell" where
  "natural_life_years_of age_when_committed =
     (case age_when_committed of
        Finite a \<Rightarrow> Num (round64 (78 - a))
      | Infinite s \<Rightarrow> Infinity (\<not> s)
      | NaN \<Rightarrow> Null)"

definition natural_life_to_years :: "frame \<Rightarrow> exn + frame" where
  "natural_life_to_years data =
     (case median (map (\<lambda>r. r ''AGE_AT_INCIDENT'')
                    (filter (\<lambda>r. r ''COMMITMENT_UNIT'' = Str ''Natural Life'') (rows data))) of
        Inl e \<Rightarrow> Inl e
      | Inr age_when_committed \<Rightarrow>
          (let natural_life_years = natural_life_years_of age_when_committed
           in Inr (loc_assign (\<lambda>r. r ''COMMITMENT_UNIT'' = Str ''Natural Life'')
                     ''COMMITMENT_TERM'' natural_life_years data)))"

definition normalize_commitment_term ::
  "(string \<Rightarrow> double option) \<Rightarrow> bool \<Rightarrow> frame \<Rightarrow> exn + frame" where
  "normalize_commitment_term float removeColumns data =
     (case astype_column float ''COMMITMENT_TERM'' (rows data) of
        Inl e \<Rightarrow> Inl e
      | Inr converted \<Rightarrow>
          (let data = data\<lparr>rows := converted\<rparr>;
               data = loc (\<lambda>r. isin (r ''COMMITMENT_UNIT'') commitment_term_units) data;
               data = assign ''COMMITMENT_TERM''
                        (\<lambda>r. cell_div (r ''COMMITMENT_TERM'') (divisor_col (r ''COMMITMENT_UNIT'')))
                        data
           in case natural_life_to_years data of
                Inl e \<Rightarrow> Inl e
              | Inr data \<Rightarrow>
                  Inr (if removeColumns then drop_columns [''COMMITMENT_UNIT''] data else data)))"

definition nan_cols :: "string list" where
  "nan_cols = [''LENGTH_OF_CASE_in_Days'', ''INCIDENT_CITY'', ''LAW_ENFORCEMENT_UNIT'']"

definition drop_nulls :: "bool \<Rightarrow> frame \<Rightarrow> frame" where
  "drop_nulls removeColumns data =
     dropna (if removeColumns then drop_columns nan_cols data else data)"

definition top_ns :: "(string \<times> nat) list" where
  "top_ns = [(''UPDATED_OFFENSE_CATEGORY'', 25), (''DISPOSITION_CHARGED_OFFENSE_TITLE'', 40),
             (''LAW_ENFORCEMENT_AGENCY'', 20), (''SENTENCE_JUDGE'', 73)]"

definition top_ns_server :: "(string \<times> nat) list" where
  "top_ns_server = [(''OFFENSE_CATEGORY'', 25), (''DISPOSITION_CHARGED_OFFENSE_TITLE'', 40),
                    (''LAW_ENFORCEMENT_AGENCY'', 20), (''SENTENCE_JUDGE'', 73)]"

text \<open>One round of the consolidation loop: the values after the first \<open>n\<close> are merged.\<close>

definition consolidate :: "string \<Rightarrow> nat \<Rightarrow> frame \<Rightarrow> frame" where
  "consolidate name n data =
     (let combine_cats = map fst (drop n (value_counts (map (\<lambda>r. r name) (rows data))))
      in loc_assign (\<lambda>r. isin (r name) combine_cats) name (Str ''misc_other'') data)"

definition reduce_cardinality :: "(string \<times> nat) list \<Rightarrow> frame \<Rightarrow> frame" where
  "reduce_cardinality tops data = fold (\<lambda>(name, n). consolidate name n) tops data"

definition clip_commitment_term :: "frame \<Rightarrow> frame" where
  "clip_commitment_term data =
     assign ''COMMITMENT_TERM'' (\<lambda>r. cell_clip_upper 110 (r ''COMMITMENT_TERM'')) data"

section \<open>Cleaning\<close>

text \<open>
  \<open>clean_data\<close> returns the cleaned frame, or the message of the step that removed the
  last row, or it raises.
\<close>

datatype outcome = Raised exn | Message string | Data frame

definition clean_data :: "(string \<Rightarrow> double option) \<Rightarrow> bool \<Rightarrow> frame \<Rightarrow> outcome" where
  "clean_data float removeColumns data =
     (let data = exclude_non_prison removeColumns data in
      if rows data = [] then Message ''INVALID: No Prison sentences found''
      else
      let data = standardize_race data in
      if rows data = [] then Message ''INVALID: No valid race values found''
      else
      let data = standardize_gender data in
      if rows data = [] then Message ''INVALID: No valid gender values found''
      else
      case normalize_commitment_term float removeColumns data of
        Inl e \<Rightarrow> Raised e
      | Inr data \<Rightarrow>
      if rows data = [] then Message ''INVALID: No valid commitment term units found''
      else
      let data = drop_nulls removeColumns data in
      if rows data = [] then Message ''INVALID: No null-free examples found''
      else Data (clip_commitment_term (reduce_cardinality top_ns data)))"

text \<open>The server's \<open>clean_data\<close> has no \<open>removeColumns\<close>: it always drops.\<close>

definition clean_data_server :: "(string \<Rightarrow> double option) \<Rightarrow> frame \<Rightarrow> outcome" where
  "clean_data_server float data =
     (let data = exclude_non_prison True data in
      if rows data = [] then Message ''INVALID: No Prison sentences found''
      else
      let data = standardize_race data in
      if rows data = [] then Message ''INVALID: No valid race values found''
      else
      let data = standardize_gender data in
      if rows data = [] then Message ''INVALID: No valid gender values found''
      else
      case normalize_commitment_term float True data of
        Inl e \<Rightarrow> Raised e
      | Inr data \<Rightarrow>
      if rows data = [] then Message ''INVALID: No valid commitment term units found''
      else
      let data = drop_nulls True data in
      if rows data = [] then Message ''INVALID: No null-free examples found''
      else Data (clip_commitment_term (reduce_cardinality top_ns_server data)))"

section \<open>The counterfactual and the discrepancy\<close>

definition race_counterfactual_map :: "string \<rightharpoonup> string" where
  "race_counterfactual_map = map_of
    [(''Black'', ''White''),
     (''White'', ''Black''),
     (''HISPANIC'', ''White''),
     (''Asian'', ''White''),
     (''American Indian'', ''White'')]"

text \<open>The frame that \<open>make_counterfactual\<close> returns.\<close>

definition make_counterfactual :: "frame \<Rightarrow> frame" where
  "make_counterfactual data =
     assign ''RACE'' (\<lambda>r. series_map race_counterfactual_map (r ''RACE'')) data"

text \<open>
  The same function on objects: a store holds the frames by address, \<open>data.copy()\<close>
  puts a copy at a fresh address, and the assignment to \<open>data_counterfactual['RACE']\<close>
  writes the column, computed from \<open>data\<close>, into the object at that address.
\<close>

type_synonym store = "frame list"

definition make_counterfactual_obj :: "store \<Rightarrow> nat \<Rightarrow> nat \<times> store" where
  "make_counterfactual_obj st data =
     (let data_counterfactual = length st;
          st = st @ [st ! data];
          race = map (\<lambda>r. series_map race_counterfactual_map (r ''RACE'')) (rows (st ! data));
          st = st[data_counterfactual :=
                    (st ! data_counterfactual)
                      \<lparr>rows := map2 (\<lambda>r v. r(''RACE'' := v)) (rows (st ! data_counterfactual)) race\<rparr>]
      in (data_counterfactual, st))"

text \<open>
  The trained pipeline is opaque: \<open>model.predict\<close> is any function from a frame to an
  array of predictions. The difference of two arrays is taken element by element.
  The notebook's \<open>estimate_discrepancy\<close> returns the pair of the discrepancy and the
  prediction when \<open>return_pred\<close> is set.
\<close>

datatype estimate = Diff "real list" | Diff_and_pred "real list" "real list"

definition array_sub :: "real list \<Rightarrow> real list \<Rightarrow> real list" where
  "array_sub xs ys = map2 (-) xs ys"

definition estimate_discrepancy :: "(frame \<Rightarrow> real list) \<Rightarrow> frame \<Rightarrow> bool \<Rightarrow> estimate" where
  "estimate_discrepancy predict data return_pred =
     (let pred = predict data;
          diff = array_sub pred (predict (make_counterfactual data))
      in if return_pred then Diff_and_pred diff pred else Diff diff)"

definition estimate_discrepancy_server :: "(frame \<Rightarrow> real list) \<Rightarrow> frame \<Rightarrow> real list" where
  "estimate_discrepancy_server predict data =
     (let diff = array_sub (predict (make_counterfactual data)) (predict data) in diff)"

text \<open>The discrepancy of an estimate, whichever shape it has.\<close>

primrec discrepancy_of :: "estimate \<Rightarrow> real list" where
  "discrepancy_of (Diff d) = d"
| "discrepancy_of (Diff_and_pred d p) = d"

section \<open>The percentile scorer\<close>

text \<open>
  \<open>discrepancy_percentile(new_discrepancy, discrepancies_path)\<close> opens the file at the
  path it is given, loads the JSON list in it, and ranks the magnitude of every new
  discrepancy in the magnitudes of the loaded list. The files of the machine and the
  log of the paths opened so far are the state it runs in. A path with no file raises.
  The lists hold finite floats, whose magnitudes and comparisons are exact. The count of
  a row of the mask and \<open>n\<close> are integers, which the division converts to float64; the
  quotient is rounded, and so is its product with 100. With an empty list the quotient
  \<open>0 / 0\<close> is \<open>NaN\<close>.
\<close>

record world =
  files :: "string \<rightharpoonup> real list"
  opened :: "string list"

definition TEST_DISCREPANCIES_PATH :: string where
  "TEST_DISCREPANCIES_PATH = ''../models/test_data_percentage_discrepancies.json''"

definition discrepancy_percentile ::
  "world \<Rightarrow> real list \<Rightarrow> string \<Rightarrow> (exn + float64 list) \<times> world" where
  "discrepancy_percentile w new_discrepancy discrepancies_path =
     (case files w discrepancies_path of
        None \<Rightarrow> (Inl FileNotFoundError, w)
      | Some loaded \<Rightarrow>
          (let test_discrepancies = map abs loaded;
               n = length test_discrepancies;
               new_abs = map abs new_discrepancy;
               mask = map (\<lambda>x. map (\<lambda>t. x > t) test_discrepancies) new_abs;
               percentile =
                 map (\<lambda>m. if n = 0 then None
                          else Some (round64 (round64 (round64 (real (length (filter id m)))
                                                        / round64 (real n)) * 100))) mask
           in (Inr percentile, w\<lparr>opened := opened w @ [discrepancies_path]\<rparr>)))"

text \<open>A machine whose reference file holds the list of the spec's example.\<close>

definition example_world :: world where
  "example_world =
     \<lparr>files = [TEST_DISCREPANCIES_PATH \<mapsto> [0.1, 0.2, 0.3, 0.4]], opened = []\<rparr>"

text \<open>A machine after some process has rewritten one of its files.\<close>

definition rewrite_file :: "string \<Rightarrow> real list \<Rightarrow> world \<Rightarrow> world" where
  "rewrite_file path xs w = w\<lparr>files := (files w)(path \<mapsto> xs)\<rparr>"

section \<open>The request handler up to the cleaned frame\<close>

text \<open>
  \<open>predict\<close> validates the body, builds a frame of one row from it, and cleans the frame.
  A schema error and a cleaning message are answered with a message and status 404; an
  exception that \<open>clean_data\<close> raises is caught nowhere. The model here ends where the
  cleaned frame is handed to the trained pipeline.
\<close>

definition cell_of_json :: "json \<Rightarrow> cell" where
  "cell_of_json j =
     (case j of JStr s \<Rightarrow> Str s | JInt i \<Rightarrow> Integer i | JFloat v \<Rightarrow> cell_of v
      | JBool b \<Rightarrow> Flag b | _ \<Rightarrow> Null)"

text \<open>\<open>pd.DataFrame({k: [v] for k, v in data.items()})\<close>.\<close>

definition row_of_dict :: "(string \<times> json) list \<Rightarrow> row" where
  "row_of_dict kvs = (\<lambda>c. case map_of kvs c of Some j \<Rightarrow> cell_of_json j | None \<Rightarrow> Null)"

definition frame_of_dict :: "(string \<times> json) list \<Rightarrow> frame" where
  "frame_of_dict kvs = DataFrame (map fst kvs) [row_of_dict kvs]"

datatype reply = Schema_error | Data_error string | Unhandled exn

definition predict_until_clean :: "(string \<Rightarrow> double option) \<Rightarrow> json \<Rightarrow> reply + frame" where
  "predict_until_clean float request =
     (case schema_validate PREDICT_SCHEMA request of
        None \<Rightarrow> Inl Schema_error
      | Some data \<Rightarrow>
          (case clean_data float True (frame_of_dict data) of
             Message msg \<Rightarrow> Inl (Data_error (''DATA ERROR: '' @ msg))
           | Raised e \<Rightarrow> Inl (Unhandled e)
           | Data cleaned \<Rightarrow> Inr cleaned))"

section \<open>Python's float on decimal numerals\<close>

text \<open>
  A conversion that agrees with Python's \<open>float\<close> on the strings made of an optional
  sign and then digits with at most one point (\<open>12\<close>, \<open>-1.5\<close>, \<open>7.\<close>, \<open>.5\<close>), \<open>nan\<close>, \<open>inf\<close>
  or \<open>infinity\<close>, and on the strings that \<open>float\<close> rejects for a character that belongs
  to no numeral, such as \<open>ten\<close>. A decimal numeral is read as the nearest float64, a
  numeral beyond the range as an infinity. It does not read the other spellings that
  \<open>float\<close> accepts (exponents, blanks around the numeral, underscores, capitals). The
  cleaning functions take the conversion as a parameter, so their theorems hold for
  \<open>float\<close> itself; this one runs them on examples.
\<close>

definition digit_of :: "char \<Rightarrow> nat option" where
  "digit_of c = (let k = (of_char c :: nat) in if 48 \<le> k \<and> k \<le> 57 then Some (k - 48) else None)"

primrec digits_value :: "nat \<Rightarrow> string \<Rightarrow> nat option" where
  "digits_value a [] = Some a"
| "digits_value a (c # cs) =
     (case digit_of c of None \<Rightarrow> None | Some d \<Rightarrow> digits_value (10 * a + d) cs)"

definition unsigned_decimal :: "string \<Rightarrow> real option" where
  "unsigned_decimal s =
     (let whole = takeWhile (\<lambda>c. c \<noteq> CHR ''.'') s;
          fraction = drop 1 (dropWhile (\<lambda>c. c \<noteq> CHR ''.'') s)
      in if whole = [] \<and> fraction = [] then None
         else case (digits_value 0 whole, digits_value 0 fraction) of
                (Some i, Some f) \<Rightarrow> Some (real i + real f / 10 ^ length fraction)
              | _ \<Rightarrow> None)"

definition signed_float :: "bool \<Rightarrow> string \<Rightarrow> double option" where
  "signed_float negative t =
     (if t = ''nan'' then Some NaN
      else if t = ''inf'' \<or> t = ''infinity'' then Some (Infinite (\<not> negative))
      else map_option (\<lambda>x. to_double (if negative then - x else x)) (unsigned_decimal t))"

definition decimal_float :: "string \<Rightarrow> double option" where
  "decimal_float s =
     (case s of
        CHR ''-'' # t \<Rightarrow> signed_float True t
      | CHR ''+'' # t \<Rightarrow> signed_float False t
      | _ \<Rightarrow> signed_float False s)"

section \<open>Example records\<close>

text \<open>The sample request payload of the notebook.\<close>

definition sample_payload :: "(string \<times> json) list" where
  "sample_payload =
    [(''UPDATED_OFFENSE_CATEGORY'', JStr ''PROMIS Conversion''),
     (''PRIMARY_CHARGE_FLAG'', JBool True),
     (''DISPOSITION_CHARGED_OFFENSE_TITLE'', JStr ''ARMED ROBBERY''),
     (''CHARGE_COUNT'', JInt 1),
     (''DISPOSITION_CHARGED_CLASS'', JStr ''X''),
     (''CHARGE_DISPOSITION'', JStr ''Plea Of Guilty''),
     (''SENTENCE_JUDGE'', JStr ''James L Rhodes''),
     (''SENTENCE_PHASE'', JStr ''Original Sentencing''),
     (''SENTENCE_TYPE'', JStr ''Prison''),
     (''COMMITMENT_TERM'', JFloat (Finite 10)),
     (''COMMITMENT_UNIT'', JStr ''Year(s)''),
     (''LENGTH_OF_CASE_in_Days'', JFloat (Finite 1307)),
     (''AGE_AT_INCIDENT'', JFloat (Finite 17)),
     (''RACE'', JStr ''Black''),
     (''GENDER'', JStr ''Male''),
     (''INCIDENT_CITY'', JNull),
     (''LAW_ENFORCEMENT_AGENCY'', JStr ''PROMIS Data Conversion''),
     (''LAW_ENFORCEMENT_UNIT'', JNull)]"

text \<open>The payload with one value replaced.\<close>

definition with_value :: "string \<Rightarrow> json \<Rightarrow> (string \<times> json) list \<Rightarrow> (string \<times> json) list" where
  "with_value k v kvs = map (\<lambda>(k', v'). (k', if k' = k then v else v')) kvs"

definition sample_record :: row where
  "sample_record = row_of_dict sample_payload"

definition sample_frame :: frame where
  "sample_frame = DataFrame PREDICT_COLUMNS [sample_record]"

text \<open>A pipeline that predicts twelve years for a black defendant and ten for any other.\<close>

definition harsher_for_black :: "frame \<Rightarrow> real list" where
  "harsher_for_black data = map (\<lambda>r. if r ''RACE'' = Str ''Black'' then 12 else 10) (rows data)"

text \<open>
  A jail sentence whose term no conversion to a number can read, a prison sentence of a
  defendant of unknown race, and the sample request with its term spelled out.
\<close>

definition jail_record :: row where
  "jail_record = sample_record(''SENTENCE_TYPE'' := Str ''Jail'', ''COMMITMENT_TERM'' := Str ''ten'')"

definition unknown_race_record :: row where
  "unknown_race_record = sample_record(''RACE'' := Str ''Unknown'')"

definition ten_payload :: "(string \<times> json) list" where
  "ten_payload = with_value ''COMMITMENT_TERM'' (JStr ''ten'') sample_payload"

text \<open>
  A batch of natural life sentences of defendants of the given ages. The examples are
  the ages 24, 20 and 22, and the ages 61, 20, 22 and 25 of which the youngest is given
  as an integer.
\<close>

definition natural_life_record :: "cell \<Rightarrow> row" where
  "natural_life_record age =
     sample_record(''COMMITMENT_UNIT'' := Str ''Natural Life'', ''AGE_AT_INCIDENT'' := age)"

definition natural_life_batch :: "cell list \<Rightarrow> frame" where
  "natural_life_batch ages = DataFrame PREDICT_COLUMNS (map natural_life_record ages)"

text \<open>
  The column that one round of the consolidation loop leaves in place of the column it
  is given.
\<close>

definition merge_rare :: "nat \<Rightarrow> cell list \<Rightarrow> cell list" where
  "merge_rare n col =
     map (\<lambda>v. if v \<in> set (map fst (drop n (value_counts col))) then Str ''misc_other'' else v) col"

text \<open>A batch of 22 records of 22 law enforcement agencies.\<close>

definition agency_names :: "string list" where
  "agency_names =
     [''CHICAGO PD'', ''EVANSTON PD'', ''CICERO PD'', ''SKOKIE PD'', ''OAK PARK PD'',
      ''BERWYN PD'', ''HARVEY PD'', ''MAYWOOD PD'', ''DOLTON PD'', ''CALUMET CITY PD'',
      ''OAK LAWN PD'', ''DES PLAINES PD'', ''ORLAND PARK PD'', ''TINLEY PARK PD'',
      ''SCHAUMBURG PD'', ''PALATINE PD'', ''ARLINGTON HEIGHTS PD'', ''ELGIN PD'',
      ''NILES PD'', ''MORTON GROVE PD'', ''PARK RIDGE PD'', ''GLENVIEW PD'']"

definition agencies_batch :: frame where
  "agencies_batch =
     DataFrame PREDICT_COLUMNS
       (map (\<lambda>a. sample_record(''LAW_ENFORCEMENT_AGENCY'' := Str a)) agency_names)"

text \<open>
  A batch of five sentences: 24 months, the term given as a string; 5 years of a
  defendant of unknown race; 100 days, the term given as an integer; 150 years; and an
  infinite number of months.
\<close>

definition term_record :: "cell \<Rightarrow> string \<Rightarrow> row" where
  "term_record t u = sample_record(''COMMITMENT_TERM'' := t, ''COMMITMENT_UNIT'' := Str u)"

definition terms_batch :: "row list" where
  "terms_batch =
     [term_record (Str ''24'') ''Months'',
      (term_record (Num 5) ''Year(s)'')(''RACE'' := Str ''Unknown''),
      term_record (Integer 100) ''Days'',
      term_record (Num 150) ''Year(s)'',
      term_record (Str ''inf'') ''Months'']"

text \<open>
  The labels and the commitment terms of a cleaned frame, for running the cleaning on
  examples.
\<close>

definition terms_of :: "outcome \<Rightarrow> (cell \<times> cell) list option" where
  "terms_of res =
     (case res of Data d \<Rightarrow> Some (map (\<lambda>r. (label r, r ''COMMITMENT_TERM'')) (rows d))
      | _ \<Rightarrow> None)"

text \<open>
  A machine whose reference file holds the numbers 1 to 25, for a new discrepancy that
  exceeds seven of them.
\<close>

definition one_to_25 :: "real list" where
  "one_to_25 = map real [1 ..< 26]"

definition world_25 :: world where
  "world_25 = \<lparr>files = [TEST_DISCREPANCIES_PATH \<mapsto> one_to_25], opened = []\<rparr>"

section \<open>Properties of the rounding\<close>

text \<open>Powers of two with an integer exponent.\<close>

lemma pow2_powr: "pow2 e = 2 powr (real_of_int e)"
proof (cases "0 \<le> e")
  case True
  then show ?thesis
    by (simp add: pow2_def powr_realpow [symmetric])
next
  case False
  then have e: "real_of_int e = - real (nat (- e))"
    by simp
  have "2 powr (- real (nat (- e))) = 1 / 2 ^ nat (- e)"
    by (simp add: powr_minus_divide powr_realpow)
  with False show ?thesis
    by (simp only: pow2_def e if_False)
qed

lemma pow2_pos: "0 < pow2 e"
  by (simp add: pow2_powr)

lemma pow2_Suc: "pow2 (e + 1) = 2 * pow2 e"
  by (simp add: pow2_powr powr_add)

lemma pow2_pred: "pow2 (e - 1) = pow2 e / 2"
  by (simp add: pow2_powr powr_diff)

lemma pow2_mono: "a \<le> b \<Longrightarrow> pow2 a \<le> pow2 b"
  by (simp add: pow2_powr)

lemma pow2_nat: "pow2 (int n) = 2 ^ n"
  by (simp add: pow2_def)

lemma pow2_neg: "pow2 (- int n) = 1 / 2 ^ n"
  by (simp add: pow2_powr powr_minus_divide powr_realpow)

lemma pow2_add: "pow2 (a + b) = pow2 a * pow2 b"
  by (simp add: pow2_powr powr_add)

lemma pow2_diff: "pow2 (a - b) = pow2 a / pow2 b"
  by (simp add: pow2_powr powr_diff)

lemma pow2_int_nat: "0 \<le> e \<Longrightarrow> pow2 e = 2 ^ nat e"
  by (simp add: pow2_def)

text \<open>The exponent of a positive real brackets it between two powers of two.\<close>

lemma exponent_of_bounds:
  assumes "0 < x"
  shows "pow2 (exponent_of x) \<le> x \<and> x < pow2 (exponent_of x + 1)"
proof (cases "1 \<le> x")
  case True
  define n where "n = \<lfloor>x\<rfloor>"
  have n: "0 < n"
    using True by (simp add: n_def)
  then have b: "1 \<le> bitlen n"
    by (simp add: bitlen_alt_def)
  from bitlen_bounds [OF n] have lo: "2 ^ nat (bitlen n - 1) \<le> n" and hi: "n < 2 ^ nat (bitlen n)"
    by simp_all
  have e: "exponent_of x = bitlen n - 1"
    using True by (simp add: exponent_of_def n_def)
  have "pow2 (bitlen n - 1) = of_int (2 ^ nat (bitlen n - 1))"
    using b by (simp add: pow2_int_nat)
  also have "\<dots> \<le> of_int n"
    using lo by (simp only: of_int_le_iff)
  also have "of_int n \<le> x"
    by (simp add: n_def)
  finally have 1: "pow2 (exponent_of x) \<le> x"
    by (simp only: e)
  have "n + 1 \<le> 2 ^ nat (bitlen n)"
    using hi by simp
  then have "real_of_int (n + 1) \<le> of_int (2 ^ nat (bitlen n))"
    by (simp only: of_int_le_iff)
  moreover have "x < of_int (n + 1)"
    by (simp add: n_def)
  moreover have "pow2 (bitlen n - 1 + 1) = of_int (2 ^ nat (bitlen n))"
    using b by (simp add: pow2_int_nat)
  ultimately have 2: "x < pow2 (exponent_of x + 1)"
    by (simp only: e)
  from 1 2 show ?thesis ..
next
  case False
  define c where "c = \<lceil>1 / x\<rceil>"
  define j where "j = bitlen (c - 1)"
  have inv: "1 < 1 / x"
    using False assms by simp
  then have c2: "0 < c - 1"
    by (simp add: c_def less_ceiling_iff)
  then have j1: "1 \<le> j"
    by (simp add: j_def bitlen_alt_def)
  from bitlen_bounds [OF c2] have lo: "2 ^ nat (j - 1) \<le> c - 1" and hi: "c - 1 < 2 ^ nat j"
    by (simp_all add: j_def)
  have e: "exponent_of x = - j"
    using False by (simp add: exponent_of_def c_def j_def)
  have "1 / x \<le> of_int c"
    by (simp add: c_def)
  also have "c \<le> 2 ^ nat j"
    using hi by simp
  then have "real_of_int c \<le> of_int (2 ^ nat j)"
    by (simp only: of_int_le_iff)
  finally have "1 / x \<le> 2 ^ nat j"
    by simp
  then have "1 / 2 ^ nat j \<le> x"
    using assms by (simp add: field_simps)
  moreover have "pow2 (- j) = 1 / 2 ^ nat j"
    using j1 by (simp add: pow2_def)
  ultimately have 1: "pow2 (exponent_of x) \<le> x"
    by (simp only: e)
  have "real_of_int (2 ^ nat (j - 1)) \<le> of_int (c - 1)"
    using lo by (simp only: of_int_le_iff)
  also have "real_of_int (c - 1) < 1 / x"
    by (simp add: c_def) linarith
  finally have "2 ^ nat (j - 1) < 1 / x"
    by simp
  then have "x < 1 / 2 ^ nat (j - 1)"
    using assms by (simp add: field_simps)
  moreover have "pow2 (- j + 1) = 1 / 2 ^ nat (j - 1)"
    using j1 by (cases "j = 1") (simp_all add: pow2_def)
  ultimately have 2: "x < pow2 (exponent_of x + 1)"
    by (simp only: e)
  from 1 2 show ?thesis ..
qed

text \<open>Rounding to an integer moves a real by a half at most, and no integer at all.\<close>

lemma round_half_even_near: "\<bar>of_int (round_half_even y) - y\<bar> \<le> 1 / 2"
  unfolding round_half_even_def Let_def
  by (auto simp add: abs_le_iff)

lemma round_half_even_int: "round_half_even (of_int z) = z"
  by (simp add: round_half_even_def)

text \<open>
  A real of at least \<open>2 ^ - 1022\<close>, the least normal float64, is rounded at 53 significant
  bits: it is scaled into the interval from \<open>2 ^ 52\<close> to \<open>2 ^ 53\<close>, rounded to an integer
  there and scaled back. So the error of the rounding is at most the fraction
  \<open>2 ^ - 53\<close> of the real.
\<close>

lemma round64_normal:
  assumes "pow2 (- 1022) \<le> x"
  shows "\<exists>y e. 2 ^ 52 \<le> y \<and> y < 2 ^ 53 \<and> y * pow2 e = x
           \<and> round64 x = of_int (round_half_even y) * pow2 e"
proof -
  have pos: "0 < x"
    using assms pow2_pos [of "- 1022"] by simp
  define k where "k = exponent_of x"
  from exponent_of_bounds [OF pos] have lo: "pow2 k \<le> x" and hi: "x < pow2 (k + 1)"
    by (simp_all add: k_def)
  have "pow2 (- 1022) < pow2 (k + 1)"
    using assms hi by simp
  then have "- 1022 < k + 1"
    by (simp add: pow2_powr)
  then have e: "max (k - 52) (- 1074) = k - 52"
    by simp
  define y where "y = x / pow2 (k - 52)"
  have p52: "pow2 52 = 2 ^ 52" and p53: "pow2 53 = 2 ^ 53"
    by (simp_all add: pow2_def)
  have "pow2 52 * pow2 (k - 52) \<le> x"
    using lo by (simp add: pow2_add [symmetric])
  then have 1: "2 ^ 52 \<le> y"
    using pow2_pos [of "k - 52"] by (simp add: y_def p52 pos_le_divide_eq)
  have "pow2 (k + 1) = pow2 53 * pow2 (k - 52)"
    unfolding pow2_add [symmetric] by (rule arg_cong [where f = pow2]) simp
  with hi have "x < pow2 53 * pow2 (k - 52)"
    by simp
  then have 2: "y < 2 ^ 53"
    using pow2_pos [of "k - 52"] by (simp add: y_def p53 pos_divide_less_eq)
  have 3: "y * pow2 (k - 52) = x"
    using pow2_pos [of "k - 52"] by (simp add: y_def)
  have 4: "round64 x = of_int (round_half_even y) * pow2 (k - 52)"
    using pos e by (simp add: round64_def k_def [symmetric] y_def Let_def)
  from 1 2 3 4 show ?thesis
    by blast
qed

lemma round64_error:
  assumes "pow2 (- 1022) \<le> x"
  shows "\<bar>round64 x - x\<bar> \<le> x / 2 ^ 53"
proof -
  from round64_normal [OF assms] obtain y e where
    y: "2 ^ 52 \<le> y" "y < 2 ^ 53" and x: "y * pow2 e = x"
    and r: "round64 x = of_int (round_half_even y) * pow2 e"
    by blast
  have "round64 x - x = of_int (round_half_even y) * pow2 e - y * pow2 e"
    by (simp only: r x)
  also have "\<dots> = (of_int (round_half_even y) - y) * pow2 e"
    by (simp add: algebra_simps)
  finally have "\<bar>round64 x - x\<bar> = \<bar>of_int (round_half_even y) - y\<bar> * pow2 e"
    using pow2_pos [of e] by (simp add: abs_mult)
  also have "\<dots> \<le> 1 / 2 * pow2 e"
    using round_half_even_near [of y] pow2_pos [of e] by (intro mult_right_mono) simp_all
  also have "\<dots> \<le> y / 2 ^ 53 * pow2 e"
    using y(1) pow2_pos [of e] by (intro mult_right_mono) simp_all
  also have "\<dots> = x / 2 ^ 53"
    by (simp add: x [symmetric])
  finally show ?thesis .
qed

text \<open>A natural number below \<open>2 ^ 53\<close> is a float64: rounding leaves it as it is.\<close>

lemma round64_nat:
  assumes "k < 2 ^ 53"
  shows "round64 (real k) = real k"
proof (cases "k = 0")
  case True
  then show ?thesis
    by (simp add: round64_def)
next
  case False
  have "pow2 (- 1022) \<le> 1"
    using pow2_neg [of 1022] by simp
  also have "1 \<le> real k"
    using False by simp
  finally have low: "pow2 (- 1022) \<le> real k" .
  have high: "real k < 2 ^ 53"
    using assms by (metis of_nat_less_iff of_nat_numeral of_nat_power)
  from round64_normal [OF low] obtain y e where
    y: "2 ^ 52 \<le> y" "y < 2 ^ 53" and x: "y * pow2 e = real k"
    and r: "round64 (real k) = of_int (round_half_even y) * pow2 e"
    by blast
  have "e \<le> 0"
  proof (rule ccontr)
    assume "\<not> e \<le> 0"
    then have "1 \<le> e"
      by simp
    then have "pow2 1 \<le> pow2 e"
      by (rule pow2_mono)
    then have "2 \<le> pow2 e"
      by (simp add: pow2_def)
    then have "2 ^ 52 * 2 \<le> y * pow2 e"
      using y(1) by (intro mult_mono) simp_all
    with x \<open>real k < 2 ^ 53\<close> show False
      by simp
  qed
  then obtain n where e: "e = - int n"
    by (metis nat_0_le neg_le_0_iff_le minus_minus)
  have "y = real k * 2 ^ n"
    using x by (simp add: e pow2_neg field_simps)
  then have "y = of_int (int k * 2 ^ n)"
    by simp
  then have "of_int (round_half_even y) = y"
    by (simp only: round_half_even_int)
  with r x show ?thesis
    by simp
qed


lemma round64_zero: "round64 0 = 0"
  by (simp add: round64_def)

text \<open>
  The float64 quotient of two counts, multiplied in float64 by 100, is within
  \<open>2 ^ - 45\<close> of the exact percentage.
\<close>

lemma percentile_close:
  assumes "0 < n" and "n < 2 ^ 53" and "c \<le> n"
  shows "\<bar>round64 (round64 (round64 (real c) / round64 (real n)) * 100)
           - 100 * real c / real n\<bar> \<le> 1 / 2 ^ 45"
proof -
  have c53: "c < 2 ^ 53"
    using assms by simp
  have conv: "round64 (real c) = real c" "round64 (real n) = real n"
    using c53 assms(2) by (simp_all only: round64_nat)
  show ?thesis
  proof (cases "c = 0")
    case True
    then show ?thesis
      by (simp add: round64_zero)
  next
    case False
    define q where "q = real c / real n"
    have npos: "0 < real n"
      using assms(1) by simp
    have "real n < 2 ^ 53"
      using assms(2) by (metis of_nat_less_iff of_nat_numeral of_nat_power)
    have "1 \<le> real c"
      using False by simp
    then have "1 / real n \<le> q"
      unfolding q_def using npos by (simp add: divide_right_mono)
    moreover have "1 / 2 ^ 53 < 1 / real n"
      using npos \<open>real n < 2 ^ 53\<close> by (simp add: field_simps)
    ultimately have qlow: "1 / 2 ^ 53 < q"
      by simp
    have qhigh: "q \<le> 1"
      unfolding q_def using assms(3) npos by simp
    have low: "pow2 (- 1022) \<le> 1 / 2 ^ 54"
      using pow2_neg [of 1022] by simp
    have "\<bar>round64 q - q\<bar> \<le> q / 2 ^ 53"
      using low qlow by (intro round64_error) simp
    then have e1: "\<bar>round64 q - q\<bar> \<le> 1 / 2 ^ 53"
      using qhigh by simp
    define p where "p = round64 q * 100"
    have "q / 2 ^ 53 \<le> q / 2"
      using qlow by (intro divide_left_mono) simp_all
    with \<open>\<bar>round64 q - q\<bar> \<le> q / 2 ^ 53\<close> have "q / 2 \<le> round64 q"
      by linarith
    moreover have "1 / 2 ^ 54 \<le> q / 2"
      using qlow by simp
    moreover have "round64 q \<le> q + 1 / 2 ^ 53"
      using e1 by linarith
    ultimately have rq: "1 / 2 ^ 54 \<le> round64 q" "round64 q \<le> 1 + 1 / 2 ^ 53"
      using qhigh by linarith+
    then have plow: "1 / 2 ^ 54 \<le> p" and phigh: "p \<le> 100 + 100 / 2 ^ 53"
      by (simp_all add: p_def)
    have "\<bar>round64 p - p\<bar> \<le> p / 2 ^ 53"
      using low plow by (intro round64_error) simp
    then have e2: "\<bar>round64 p - p\<bar> \<le> (100 + 100 / 2 ^ 53) / 2 ^ 53"
      using phigh by (simp add: divide_right_mono order_trans)
    have "p - 100 * q = 100 * (round64 q - q)"
      by (simp add: p_def)
    then have "\<bar>p - 100 * q\<bar> = 100 * \<bar>round64 q - q\<bar>"
      by (simp only: abs_mult abs_numeral)
    moreover have "\<bar>(round64 p - p) + (p - 100 * q)\<bar> \<le> \<bar>round64 p - p\<bar> + \<bar>p - 100 * q\<bar>"
      by (rule abs_triangle_ineq)
    ultimately have "\<bar>round64 p - 100 * q\<bar> \<le> \<bar>round64 p - p\<bar> + 100 * \<bar>round64 q - q\<bar>"
      by simp
    also have "\<dots> \<le> (100 + 100 / 2 ^ 53) / 2 ^ 53 + 100 * (1 / 2 ^ 53)"
      using e1 e2 by (intro add_mono mult_left_mono) simp_all
    also have "\<dots> \<le> 1 / 2 ^ 45"
      by simp
    finally show ?thesis
      by (simp add: conv p_def q_def)
  qed
qed

lemma round64_numeral:
  "(numeral k :: nat) < 2 ^ 53 \<Longrightarrow> round64 (numeral k) = numeral k"
  using round64_nat [of "numeral k"] by simp

lemma round64_one: "round64 1 = 1"
  using round64_nat [of 1] by simp

lemma round64_examples:
  "round64 (1 / 2) = 1 / 2" "round64 (1 / 4) = 1 / 4"
  by code_simp+

section \<open>Properties of frames\<close>

lemma rows_DataFrame: "rows (DataFrame cols rs) = RangeIndex rs"
  by (simp add: DataFrame_def)

lemma length_RangeIndex: "length (RangeIndex rs) = length rs"
  by (simp add: RangeIndex_def)

lemma nth_RangeIndex:
  "i < length rs \<Longrightarrow> RangeIndex rs ! i = (rs ! i)(''index'' := Integer (int i))"
  by (simp add: RangeIndex_def)

lemma RangeIndex_single: "RangeIndex [r] = [r(''index'' := Integer 0)]"
  by (simp add: RangeIndex_def)

lemma RangeIndex_cells:
  "list_all2 (\<lambda>r r'. label r' = Integer (int (i :: nat)) \<longrightarrow> (\<forall>c. c \<noteq> ''index'' \<longrightarrow> r' c = r c)) rs (RangeIndex rs)"
  by (simp add: list_all2_conv_all_nth length_RangeIndex nth_RangeIndex)

lemma column_RangeIndex:
  "c \<noteq> ''index'' \<Longrightarrow> map (\<lambda>r. r c) (RangeIndex rs) = map (\<lambda>r. r c) rs"
  by (rule nth_equalityI) (simp_all add: length_RangeIndex nth_RangeIndex)

lemma labels_RangeIndex:
  "map label (RangeIndex rs) = map (\<lambda>i. Integer (int i)) [0 ..< length rs]"
  by (rule nth_equalityI) (simp_all add: length_RangeIndex nth_RangeIndex label_def)

lemma list_all_RangeIndex:
  assumes "c \<noteq> ''index''" and "list_all (\<lambda>r. P (r c)) rs"
  shows "list_all (\<lambda>r. P (r c)) (RangeIndex rs)"
proof -
  have "list_all P (map (\<lambda>r. r c) rs)"
    using assms(2) by (simp add: list_all_iff)
  then have "list_all P (map (\<lambda>r. r c) (RangeIndex rs))"
    by (simp only: column_RangeIndex [OF assms(1)])
  then show ?thesis
    by (simp add: list_all_iff)
qed

section \<open>Properties of the percentile scorer\<close>

lemma count_mask:
  "length (filter id (map (\<lambda>t. x > t) ts)) = length (filter (\<lambda>t. t < x) ts)"
  by (induction ts) auto

lemma filter_abs:
  "filter (\<lambda>t. t < x) (map abs ts) = map abs (filter (\<lambda>t. \<bar>t\<bar> < x) ts)"
  by (induction ts) auto

lemma count_smaller:
  "length (filter id (map (\<lambda>t. \<bar>x\<bar> > t) (map abs reference)))
     = length (filter (\<lambda>t. \<bar>t\<bar> < \<bar>x\<bar>) reference)" for x :: real
  by (simp only: count_mask filter_abs length_map)

lemma seven_of_25: "length (filter (\<lambda>t. \<bar>t\<bar> < \<bar>7.5\<bar>) one_to_25) = 7 \<and> length one_to_25 = 25"
  by code_simp

lemma seven_of_25_rounded:
  "round64 (round64 (round64 (real 7) / round64 (real 25)) * 100) = 28 + 1 / 2 ^ 48"
  by code_simp

text \<open>
  C1, as claimed, fails on the value. Against the reference values 1 to 25 the new value
  7.5 exceeds seven, and \<open>100 \<times> 7 / 25\<close> is 28, also when the product and the quotient are
  rounded to float64 in this order. The scorer divides first: 7 / 25 is no float64, its
  rounding error is multiplied by 100, and the result is the float64 next above 28,
  which Python prints as \<open>28.000000000000004\<close>.
\<close>

theorem percentile_rank_counterexample:
  "fst (discrepancy_percentile world_25 [7.5] TEST_DISCREPANCIES_PATH)
     = Inr [Some (28 + 1 / 2 ^ 48)]
   \<and> fst (discrepancy_percentile world_25 [7.5] TEST_DISCREPANCIES_PATH)
     \<noteq> Inr [Some (100 * real (length (filter (\<lambda>t. \<bar>t\<bar> < \<bar>7.5\<bar>) one_to_25))
                    / real (length one_to_25))]
   \<and> round64 (round64 (100 * real (length (filter (\<lambda>t. \<bar>t\<bar> < \<bar>7.5\<bar>) one_to_25)))
                / round64 (real (length one_to_25))) = 28"
proof -
  have f: "files world_25 TEST_DISCREPANCIES_PATH = Some one_to_25"
    by (simp add: world_25_def)
  have n: "length (map abs one_to_25) \<noteq> 0"
    by (simp add: seven_of_25)
  have a: "fst (discrepancy_percentile world_25 [7.5] TEST_DISCREPANCIES_PATH)
     = Inr [Some (28 + 1 / 2 ^ 48)]"
    unfolding discrepancy_percentile_def f option.case Let_def fst_conv list.map
      count_smaller if_not_P [OF n] length_map seven_of_25 [THEN conjunct1]
      seven_of_25 [THEN conjunct2]
    by (simp only: seven_of_25_rounded) simp
  have b: "Inr [Some (28 + 1 / 2 ^ 48)]
     \<noteq> (Inr [Some (100 * real (length (filter (\<lambda>t. \<bar>t\<bar> < \<bar>7.5\<bar>) one_to_25))
                    / real (length one_to_25))] :: exn + real option list)"
    unfolding seven_of_25 [THEN conjunct1] seven_of_25 [THEN conjunct2] by simp
  have c: "round64 (round64 (100 * real (length (filter (\<lambda>t. \<bar>t\<bar> < \<bar>7.5\<bar>) one_to_25)))
                / round64 (real (length one_to_25))) = 28"
    unfolding seven_of_25 [THEN conjunct1] seven_of_25 [THEN conjunct2] by code_simp
  show ?thesis
    unfolding a by (intro conjI refl b c)
qed

text \<open>
  C1, amended. With a non-empty reference list in the file, the scorer returns for every
  new value the float64 product with 100 of the float64 quotient of two integers: the
  number of reference values of strictly smaller magnitude and the number of reference
  values. A reference value of the same magnitude is not counted. With fewer than
  \<open>2 ^ 53\<close> reference values the result is within \<open>2 ^ - 45\<close> of 100 times the first number
  divided by the second.
\<close>

theorem discrepancy_percentile_rank:
  assumes "files w p = Some reference" and "reference \<noteq> []"
  shows "fst (discrepancy_percentile w new p) =
      Inr (map (\<lambda>x. Some (round64 (round64
                 (round64 (real (length (filter (\<lambda>t. \<bar>t\<bar> < \<bar>x\<bar>) reference)))
                    / round64 (real (length reference))) * 100))) new)
    \<and> (length reference < 2 ^ 53 \<longrightarrow>
         (\<exists>percentile. fst (discrepancy_percentile w new p) = Inr (map Some percentile)
            \<and> list_all2 (\<lambda>x y. \<bar>y - 100 * real (length (filter (\<lambda>t. \<bar>t\<bar> < \<bar>x\<bar>) reference))
                                       / real (length reference)\<bar> \<le> 1 / 2 ^ 45)
                 new percentile))"
proof -
  let ?count = "\<lambda>x :: real. length (filter (\<lambda>t. \<bar>t\<bar> < \<bar>x\<bar>) reference)"
  let ?score = "\<lambda>x. round64 (round64 (round64 (real (?count x)) / round64 (real (length reference))) * 100)"
  have res: "fst (discrepancy_percentile w new p) = Inr (map (\<lambda>x. Some (?score x)) new)"
    using assms by (simp add: discrepancy_percentile_def Let_def o_def count_smaller)
  have close: "list_all2 (\<lambda>x y. \<bar>y - 100 * real (?count x) / real (length reference)\<bar> \<le> 1 / 2 ^ 45)
                 new (map ?score new)"
    if "length reference < 2 ^ 53"
    unfolding list_all2_map2
  proof (rule list_all2_all_nthI)
    show "length new = length new"
      by simp
  next
    fix n
    show "\<bar>?score (new ! n) - 100 * real (?count (new ! n)) / real (length reference)\<bar> \<le> 1 / 2 ^ 45"
      using assms(2) that by (intro percentile_close) simp_all
  qed
  have "fst (discrepancy_percentile w new p) = Inr (map Some (map ?score new))"
    by (simp add: res o_def)
  with close have "length reference < 2 ^ 53 \<longrightarrow>
         (\<exists>percentile. fst (discrepancy_percentile w new p) = Inr (map Some percentile)
            \<and> list_all2 (\<lambda>x y. \<bar>y - 100 * real (?count x) / real (length reference)\<bar> \<le> 1 / 2 ^ 45)
                 new percentile)"
    by (intro impI exI [of _ "map ?score new"] conjI)
  with res show ?thesis
    by (intro conjI)
qed

theorem discrepancy_percentile_rank_witness:
  "files example_world TEST_DISCREPANCIES_PATH = Some [0.1, 0.2, 0.3, 0.4]
   \<and> [0.1, 0.2, 0.3, 0.4] \<noteq> ([] :: real list)
   \<and> length [0.1, 0.2, 0.3, 0.4 :: real] < 2 ^ 53
   \<and> fst (discrepancy_percentile example_world [0.25, 0.2, - 0.3] TEST_DISCREPANCIES_PATH)
       = Inr [Some 50, Some 25, Some 50]"
proof -
  have f: "files example_world TEST_DISCREPANCIES_PATH = Some [0.1, 0.2, 0.3, 0.4]"
    by (simp add: example_world_def)
  have n: "[0.1, 0.2, 0.3, 0.4] \<noteq> ([] :: real list)"
    by simp
  have l: "length [0.1, 0.2, 0.3, 0.4 :: real] < 2 ^ 53"
    by simp
  have v: "fst (discrepancy_percentile example_world [0.25, 0.2, - 0.3] TEST_DISCREPANCIES_PATH)
       = Inr [Some 50, Some 25, Some 50]"
    using discrepancy_percentile_rank [OF f n, of "[0.25, 0.2, - 0.3]", THEN conjunct1]
    by (simp add: round64_examples round64_numeral round64_one)
  show ?thesis
    using f n l v by (intro conjI)
qed

section \<open>Properties of the discrepancy estimate\<close>

lemma sample_record_race: "sample_record ''RACE'' = Str ''Black''"
  by (simp add: sample_record_def row_of_dict_def sample_payload_def cell_of_json_def)

text \<open>
  C2. The notebook's estimate is the prediction for the row less the prediction for its
  counterfactual, so it is positive exactly where the actual race is predicted the
  longer sentence; the server's estimate is the counterfactual's prediction less the
  row's. The two are negations of each other.
\<close>

theorem estimate_discrepancy_signs:
  "discrepancy_of (estimate_discrepancy predict data return_pred)
     = map2 (\<lambda>actual counterfactual. actual - counterfactual)
         (predict data) (predict (make_counterfactual data))
   \<and> estimate_discrepancy_server predict data
     = map2 (\<lambda>actual counterfactual. counterfactual - actual)
         (predict data) (predict (make_counterfactual data))
   \<and> estimate_discrepancy_server predict data
     = map uminus (discrepancy_of (estimate_discrepancy predict data return_pred))
   \<and> estimate_discrepancy predict data True
     = Diff_and_pred (discrepancy_of (estimate_discrepancy predict data False)) (predict data)
   \<and> (\<forall>i < length (discrepancy_of (estimate_discrepancy predict data return_pred)).
         (0 < discrepancy_of (estimate_discrepancy predict data return_pred) ! i)
       = (predict (make_counterfactual data) ! i < predict data ! i))"
proof -
  let ?p = "predict data" and ?c = "predict (make_counterfactual data)"
  have swap: "map2 (-) ?c ?p = map2 (\<lambda>a c. c - a) ?p ?c"
    by (simp add: zip_commute [of ?c ?p] map_prod_def split_def)   
  have neg: "map2 (\<lambda>a c. c - a) ?p ?c = map uminus (map2 (-) ?p ?c)"
    by (simp add: split_def)
  show ?thesis
    by (simp add: estimate_discrepancy_def estimate_discrepancy_server_def array_sub_def
        Let_def swap neg)
qed

lemma harsher_sample: "harsher_for_black sample_frame = [12]"
  by (simp add: harsher_for_black_def sample_frame_def DataFrame_def RangeIndex_single
      sample_record_race)

lemma harsher_counterfactual: "harsher_for_black (make_counterfactual sample_frame) = [10]"
  by (simp add: harsher_for_black_def sample_frame_def DataFrame_def RangeIndex_single
      make_counterfactual_def assign_def series_map_def race_counterfactual_map_def
      sample_record_race)

theorem estimate_discrepancy_signs_witness:
  "discrepancy_of (estimate_discrepancy harsher_for_black sample_frame True) = [2]
   \<and> estimate_discrepancy_server harsher_for_black sample_frame = [- 2]
   \<and> (0 :: nat) < length (discrepancy_of (estimate_discrepancy harsher_for_black sample_frame True))
   \<and> 0 < discrepancy_of (estimate_discrepancy harsher_for_black sample_frame True) ! 0"
proof -
  note signs = estimate_discrepancy_signs [of harsher_for_black sample_frame True]
  have d: "discrepancy_of (estimate_discrepancy harsher_for_black sample_frame True) = [2]"
    using signs [THEN conjunct1] by (simp add: harsher_sample harsher_counterfactual)
  have s: "estimate_discrepancy_server harsher_for_black sample_frame = [- 2]"
    using signs [THEN conjunct2, THEN conjunct1]
    by (simp add: harsher_sample harsher_counterfactual)
  show ?thesis
    by (simp add: d s)
qed

section \<open>Properties of the counterfactual\<close>

lemma race_counterfactual_cases:
  "series_map race_counterfactual_map c =
     (if c = Str ''Black'' then Str ''White''
      else if c = Str ''White'' then Str ''Black''
      else if c \<in> {Str ''HISPANIC'', Str ''Asian'', Str ''American Indian''} then Str ''White''
      else Null)"
  by (cases c) (simp_all add: series_map_def race_counterfactual_map_def)

lemma map2_same: "map2 f xs (map g xs) = map (\<lambda>x. f x (g x)) xs"
  by (induction xs) simp_all

lemma make_counterfactual_obj_eq:
  "data < length st \<Longrightarrow>
   make_counterfactual_obj st data = (length st, st @ [make_counterfactual (st ! data)])"
  by (simp add: make_counterfactual_obj_def Let_def nth_append make_counterfactual_def
      assign_def map2_same)

lemma make_counterfactual_rows:
  "list_all2 (\<lambda>r r'. r' ''RACE'' = series_map race_counterfactual_map (r ''RACE'')
                     \<and> (\<forall>c. c \<noteq> ''RACE'' \<longrightarrow> r' c = r c))
     (rows d) (rows (make_counterfactual d))"
  by (simp add: make_counterfactual_def assign_def list_all2_map2 list_all2_same)

text \<open>
  C3. \<open>make_counterfactual\<close> returns a new object: a frame with the columns of the input
  whose rows have the race replaced by the fixed map (Black to White, White to Black,
  HISPANIC, Asian and American Indian to White, anything else to the missing value) and
  every other cell unchanged. The input object, like every object that existed before
  the call, is left as it was.
\<close>

theorem make_counterfactual_copy:
  assumes "data < length st"
  shows "case make_counterfactual_obj st data of (data_counterfactual, st') \<Rightarrow>
     data_counterfactual \<noteq> data
     \<and> length st' = Suc (length st)
     \<and> (\<forall>a < length st. st' ! a = st ! a)
     \<and> st' ! data_counterfactual = make_counterfactual (st ! data)
     \<and> columns (st' ! data_counterfactual) = columns (st ! data)
     \<and> list_all2 (\<lambda>r r'.
           r' ''RACE'' =
             (if r ''RACE'' = Str ''Black'' then Str ''White''
              else if r ''RACE'' = Str ''White'' then Str ''Black''
              else if r ''RACE'' \<in> {Str ''HISPANIC'', Str ''Asian'', Str ''American Indian''}
                   then Str ''White''
              else Null)
           \<and> (\<forall>c. c \<noteq> ''RACE'' \<longrightarrow> r' c = r c))
         (rows (st ! data)) (rows (st' ! data_counterfactual))"
proof -
  have cols: "columns (make_counterfactual (st ! data)) = columns (st ! data)"
    by (simp add: make_counterfactual_def assign_def)
  have rws: "list_all2 (\<lambda>r r'.
           r' ''RACE'' =
             (if r ''RACE'' = Str ''Black'' then Str ''White''
              else if r ''RACE'' = Str ''White'' then Str ''Black''
              else if r ''RACE'' \<in> {Str ''HISPANIC'', Str ''Asian'', Str ''American Indian''}
                   then Str ''White''
              else Null)
           \<and> (\<forall>c. c \<noteq> ''RACE'' \<longrightarrow> r' c = r c))
         (rows (st ! data)) (rows (make_counterfactual (st ! data)))"
    using make_counterfactual_rows [of "st ! data"]
    by (simp only: race_counterfactual_cases)
  show ?thesis
    using assms cols rws
    by (simp add: make_counterfactual_obj_eq nth_append)
qed

theorem make_counterfactual_copy_witness:
  "(0 :: nat) < length [sample_frame]
   \<and> fst (make_counterfactual_obj [sample_frame] 0) = 1
   \<and> snd (make_counterfactual_obj [sample_frame] 0) ! 0 = sample_frame
   \<and> map (\<lambda>r. r ''RACE'') (rows (snd (make_counterfactual_obj [sample_frame] 0) ! 1))
       = [Str ''White'']
   \<and> map (\<lambda>r. r ''RACE'') (rows (snd (make_counterfactual_obj [sample_frame] 0) ! 0))
       = [Str ''Black'']"
proof -
  have h: "(0 :: nat) < length [sample_frame]"
    by simp
  have f: "fst (make_counterfactual_obj [sample_frame] 0) = 1"
    by (simp add: make_counterfactual_obj_def Let_def)
  have "case make_counterfactual_obj [sample_frame] 0 of (cf, st') \<Rightarrow>
          st' ! 0 = sample_frame \<and> st' ! cf = make_counterfactual sample_frame"
    using make_counterfactual_copy [OF h] by (simp add: split_def)
  then have old: "snd (make_counterfactual_obj [sample_frame] 0) ! 0 = sample_frame"
    and new: "snd (make_counterfactual_obj [sample_frame] 0) ! 1 = make_counterfactual sample_frame"
    using f by (simp_all add: split_def)
  have r1: "map (\<lambda>r. r ''RACE'') (rows (snd (make_counterfactual_obj [sample_frame] 0) ! 1))
       = [Str ''White'']"
    unfolding new
    by (simp add: sample_frame_def DataFrame_def RangeIndex_single make_counterfactual_def
          assign_def race_counterfactual_cases sample_record_race)
  have r0: "map (\<lambda>r. r ''RACE'') (rows (snd (make_counterfactual_obj [sample_frame] 0) ! 0))
       = [Str ''Black'']"
    unfolding old
    by (simp add: sample_frame_def DataFrame_def RangeIndex_single sample_record_race)
  show ?thesis
    using h f old r1 r0 by blast
qed

section \<open>The scorer and the reference file\<close>

lemma percentile_example:
  "files w p = Some [0.1, 0.2, 0.3, 0.4] \<Longrightarrow>
   fst (discrepancy_percentile w [0.25] p) = Inr [Some 50]"
  by (simp add: discrepancy_percentile_def round64_examples round64_numeral)

lemma percentile_rewritten:
  "files w p = Some [0.3, 0.4] \<Longrightarrow>
   fst (discrepancy_percentile w [0.25] p) = Inr [Some 0]"
  by (simp add: discrepancy_percentile_def round64_zero)

lemma percentile_world:
  "files w p = Some xs \<Longrightarrow>
   snd (discrepancy_percentile w new p) = w\<lparr>opened := opened w @ [p]\<rparr>"
  by (simp add: discrepancy_percentile_def Let_def)

text \<open>
  C9, as claimed, fails: the reference list is not loaded once and kept. A request
  scores 0.25 at 50 against the file's four values; after the file was rewritten the
  next request scores the same value at 0; and two requests leave two openings of the
  file in the log.
\<close>

theorem reference_loaded_once_counterexample:
  "fst (discrepancy_percentile example_world [0.25] TEST_DISCREPANCIES_PATH) = Inr [Some 50]
   \<and> fst (discrepancy_percentile
           (rewrite_file TEST_DISCREPANCIES_PATH [0.3, 0.4]
              (snd (discrepancy_percentile example_world [0.25] TEST_DISCREPANCIES_PATH)))
           [0.25] TEST_DISCREPANCIES_PATH) = Inr [Some 0]
   \<and> opened (snd (discrepancy_percentile
                   (snd (discrepancy_percentile example_world [0.25] TEST_DISCREPANCIES_PATH))
                   [0.25] TEST_DISCREPANCIES_PATH))
       = [TEST_DISCREPANCIES_PATH, TEST_DISCREPANCIES_PATH]"
proof -
  have f: "files example_world TEST_DISCREPANCIES_PATH = Some [0.1, 0.2, 0.3, 0.4]"
    by (simp add: example_world_def)
  have w1: "snd (discrepancy_percentile example_world [0.25] TEST_DISCREPANCIES_PATH)
      = example_world\<lparr>opened := [TEST_DISCREPANCIES_PATH]\<rparr>"
    using percentile_world [OF f] by (simp add: example_world_def)
  have a: "fst (discrepancy_percentile example_world [0.25] TEST_DISCREPANCIES_PATH) = Inr [Some 50]"
    by (rule percentile_example [OF f])
  have b: "fst (discrepancy_percentile
           (rewrite_file TEST_DISCREPANCIES_PATH [0.3, 0.4]
              (snd (discrepancy_percentile example_world [0.25] TEST_DISCREPANCIES_PATH)))
           [0.25] TEST_DISCREPANCIES_PATH) = Inr [Some 0]"
    by (rule percentile_rewritten) (simp add: rewrite_file_def)
  have c: "opened (snd (discrepancy_percentile
                   (snd (discrepancy_percentile example_world [0.25] TEST_DISCREPANCIES_PATH))
                   [0.25] TEST_DISCREPANCIES_PATH))
       = [TEST_DISCREPANCIES_PATH, TEST_DISCREPANCIES_PATH]"
    unfolding w1
    by (subst percentile_world [where xs = "[0.1, 0.2, 0.3, 0.4]"]) (simp_all add: example_world_def)
  show ?thesis
    by (intro conjI) (rule a b c)+
qed

text \<open>
  C9, amended. The reference list is no state of the process: every percentile
  computation opens the file at the path it is given and reads the list anew, so its
  result is determined by what that file holds at the time of the call; no computation
  changes a file.
\<close>

theorem discrepancy_percentile_reads_file:
  "files (snd (discrepancy_percentile w new p)) = files w
   \<and> (files w p \<noteq> None \<longrightarrow>
        opened (snd (discrepancy_percentile w new p)) = opened w @ [p])
   \<and> (files w p = files w' p \<longrightarrow>
        fst (discrepancy_percentile w new p) = fst (discrepancy_percentile w' new p))"
  by (auto simp add: discrepancy_percentile_def Let_def split: option.splits)

theorem discrepancy_percentile_reads_file_witness:
  "files example_world TEST_DISCREPANCIES_PATH \<noteq> None
   \<and> files example_world TEST_DISCREPANCIES_PATH
       = files (example_world\<lparr>opened := [''model.pkl'']\<rparr>) TEST_DISCREPANCIES_PATH
   \<and> opened (snd (discrepancy_percentile example_world [0.25] TEST_DISCREPANCIES_PATH))
       = [TEST_DISCREPANCIES_PATH]
   \<and> fst (discrepancy_percentile (example_world\<lparr>opened := [''model.pkl'']\<rparr>) [0.25]
            TEST_DISCREPANCIES_PATH) = Inr [Some 50]"
proof -
  note reads = discrepancy_percentile_reads_file
    [of example_world "[0.25]" TEST_DISCREPANCIES_PATH "example_world\<lparr>opened := [''model.pkl'']\<rparr>"]
  have f: "files example_world TEST_DISCREPANCIES_PATH = Some [0.1, 0.2, 0.3, 0.4]"
    by (simp add: example_world_def)
  have h1: "files example_world TEST_DISCREPANCIES_PATH \<noteq> None"
    by (simp add: f)
  have h2: "files example_world TEST_DISCREPANCIES_PATH
       = files (example_world\<lparr>opened := [''model.pkl'']\<rparr>) TEST_DISCREPANCIES_PATH"
    by simp
  have o: "opened (snd (discrepancy_percentile example_world [0.25] TEST_DISCREPANCIES_PATH))
       = [TEST_DISCREPANCIES_PATH]"
    using reads [THEN conjunct2, THEN conjunct1] h1 by (simp add: example_world_def)
  have "fst (discrepancy_percentile (example_world\<lparr>opened := [''model.pkl'']\<rparr>) [0.25]
            TEST_DISCREPANCIES_PATH)
      = fst (discrepancy_percentile example_world [0.25] TEST_DISCREPANCIES_PATH)"
    using reads [THEN conjunct2, THEN conjunct2] h2 by (simp only: simp_thms)
  then have r: "fst (discrepancy_percentile (example_world\<lparr>opened := [''model.pkl'']\<rparr>) [0.25]
            TEST_DISCREPANCIES_PATH) = Inr [Some 50]"
    by (simp only: percentile_example [OF f])
  show ?thesis
    by (intro conjI) (rule h1 h2 o r)+
qed

section \<open>Rejections of the cleaning\<close>

lemma rows_exclude_non_prison_empty:
  "list_all (\<lambda>r. r ''SENTENCE_TYPE'' \<noteq> Str ''Prison'') (rows data) \<Longrightarrow>
   rows (exclude_non_prison removeColumns data) = []"
  by (simp add: exclude_non_prison_def loc_def drop_columns_def Let_def list_all_iff
      filter_empty_conv)

text \<open>
  C6, amended. For every batch with no record whose sentence type is Prison,
  \<open>clean_data\<close> returns the string \<open>INVALID: No Prison sentences found\<close> at its first
  step, whatever the later steps would have done with the batch (a term that the
  conversion to a number rejects included). The notebook's and the server's function
  agree in this.
\<close>

theorem clean_data_no_prison:
  assumes "list_all (\<lambda>r. r ''SENTENCE_TYPE'' \<noteq> Str ''Prison'') records"
  shows "clean_data float removeColumns (DataFrame PREDICT_COLUMNS records)
           = Message ''INVALID: No Prison sentences found''
       \<and> clean_data_server float (DataFrame PREDICT_COLUMNS_server records)
           = Message ''INVALID: No Prison sentences found''"
proof -
  have "list_all (\<lambda>r. r ''SENTENCE_TYPE'' \<noteq> Str ''Prison'') (RangeIndex records)"
    using assms by (intro list_all_RangeIndex) simp_all
  then have "rows (exclude_non_prison b (DataFrame cols records)) = []" for b cols
    by (simp add: rows_exclude_non_prison_empty rows_DataFrame)
  then show ?thesis
    by (simp add: clean_data_def clean_data_server_def Let_def)
qed

lemma sample_record_type: "sample_record ''SENTENCE_TYPE'' = Str ''Prison''"
  by (simp add: sample_record_def row_of_dict_def sample_payload_def cell_of_json_def)

lemma jail_record_type: "jail_record ''SENTENCE_TYPE'' = Str ''Jail''"
  by (simp add: jail_record_def)

lemma jail_record_term: "jail_record ''COMMITMENT_TERM'' = Str ''ten''"
  by (simp add: jail_record_def)

lemma decimal_float_ten: "decimal_float ''ten'' = None"
  by (simp add: decimal_float_def signed_float_def unsigned_decimal_def digit_of_def)

theorem clean_data_no_prison_witness:
  "list_all (\<lambda>r. r ''SENTENCE_TYPE'' \<noteq> Str ''Prison'') [jail_record]
   \<and> astype_float decimal_float (jail_record ''COMMITMENT_TERM'') = Inl ValueError
   \<and> clean_data decimal_float True (DataFrame PREDICT_COLUMNS [jail_record])
       = Message ''INVALID: No Prison sentences found''
   \<and> clean_data_server decimal_float (DataFrame PREDICT_COLUMNS_server [jail_record])
       = Message ''INVALID: No Prison sentences found''"
proof -
  have h: "list_all (\<lambda>r. r ''SENTENCE_TYPE'' \<noteq> Str ''Prison'') [jail_record]"
    by (simp add: jail_record_type)
  have t: "astype_float decimal_float (jail_record ''COMMITMENT_TERM'') = Inl ValueError"
    by (simp add: jail_record_term astype_float_def decimal_float_ten)
  show ?thesis
    using clean_data_no_prison [OF h, of decimal_float True] h t by blast
qed

text \<open>
  C6, as claimed, fails on the string: for a batch of one jail sentence the function
  does not return \<open>No Prison sentences found\<close>; what it returns starts with
  \<open>INVALID: \<close>.
\<close>

theorem clean_data_no_prison_counterexample:
  "clean_data decimal_float True (DataFrame PREDICT_COLUMNS [jail_record])
     \<noteq> Message ''No Prison sentences found''"
proof -
  have "rows (exclude_non_prison True (DataFrame PREDICT_COLUMNS [jail_record])) = []"
    by (simp add: rows_exclude_non_prison_empty DataFrame_def RangeIndex_single
        jail_record_type)
  then show ?thesis
    by (simp add: clean_data_def Let_def)
qed

lemma standard_race_rejected:
  assumes "c = Str ''Unknown'' \<or>
           c \<notin> Str ` {''Black'', ''White'', ''HISPANIC'', ''White [Hispanic or Latino]'',
                        ''White/Black [Hispanic or Latino]'', ''ASIAN'', ''Asian'',
                        ''American Indian'', ''Unknown'', ''Biracial''}"
  shows "series_map standard_race_map c = Str ''Unknown'' \<or> series_map standard_race_map c = Null"
proof (cases c)
  case (Str s)
  then show ?thesis
    using assms by (auto simp add: series_map_def standard_race_map_def)
qed (simp_all add: series_map_def)

lemma rows_exclude_non_prison:
  "rows (exclude_non_prison removeColumns data) =
     map (\<lambda>r. if removeColumns then (\<lambda>c. if c \<in> set [''SENTENCE_TYPE''] then Null else r c) else r)
       (filter (\<lambda>r. r ''SENTENCE_TYPE'' = Str ''Prison'') (rows data))"
  by (simp add: exclude_non_prison_def loc_def drop_columns_def Let_def)

lemma rows_standardize_race:
  "rows (standardize_race data) =
     filter (\<lambda>r. r ''RACE'' \<noteq> Null)
       (filter (\<lambda>r. r ''RACE'' \<noteq> Str ''Unknown'')
          (map (\<lambda>r. r(''RACE'' := series_map standard_race_map (r ''RACE''))) (rows data)))"
  by (simp add: standardize_race_def assign_def loc_def Let_def)

text \<open>
  C7, amended. For every batch of one record that passes the prison filter and whose
  race is Unknown or no key of the race table, \<open>clean_data\<close> returns the string
  \<open>INVALID: No valid race values found\<close>, in the notebook and in the server.
\<close>

theorem clean_data_no_valid_race:
  assumes "r ''SENTENCE_TYPE'' = Str ''Prison''"
    and "r ''RACE'' = Str ''Unknown'' \<or>
         r ''RACE'' \<notin> Str ` {''Black'', ''White'', ''HISPANIC'', ''White [Hispanic or Latino]'',
                              ''White/Black [Hispanic or Latino]'', ''ASIAN'', ''Asian'',
                              ''American Indian'', ''Unknown'', ''Biracial''}"
  shows "clean_data float removeColumns (DataFrame PREDICT_COLUMNS [r])
           = Message ''INVALID: No valid race values found''
       \<and> clean_data_server float (DataFrame PREDICT_COLUMNS_server [r])
           = Message ''INVALID: No valid race values found''"
proof -
  note rejected = standard_race_rejected [OF assms(2)]
  have step: "rows (exclude_non_prison b (DataFrame cols [r])) \<noteq> []
      \<and> rows (standardize_race (exclude_non_prison b (DataFrame cols [r]))) = []" for b cols
    using assms(1) rejected
    by (auto simp add: rows_standardize_race rows_exclude_non_prison DataFrame_def
        RangeIndex_single)
  show ?thesis
    using step [of removeColumns PREDICT_COLUMNS] step [of True PREDICT_COLUMNS_server]
    by (simp add: clean_data_def clean_data_server_def Let_def)
qed

lemma unknown_race_record_type: "unknown_race_record ''SENTENCE_TYPE'' = Str ''Prison''"
  by (simp add: unknown_race_record_def sample_record_type)

lemma unknown_race_record_race: "unknown_race_record ''RACE'' = Str ''Unknown''"
  by (simp add: unknown_race_record_def)

theorem clean_data_no_valid_race_witness:
  "unknown_race_record ''SENTENCE_TYPE'' = Str ''Prison''
   \<and> unknown_race_record ''RACE'' = Str ''Unknown''
   \<and> clean_data decimal_float True (DataFrame PREDICT_COLUMNS [unknown_race_record])
       = Message ''INVALID: No valid race values found''
   \<and> clean_data_server decimal_float (DataFrame PREDICT_COLUMNS_server [unknown_race_record])
       = Message ''INVALID: No valid race values found''"
proof -
  have r: "unknown_race_record ''RACE'' = Str ''Unknown'' \<or>
         unknown_race_record ''RACE'' \<notin> Str ` {''Black'', ''White'', ''HISPANIC'', ''White [Hispanic or Latino]'',
                              ''White/Black [Hispanic or Latino]'', ''ASIAN'', ''Asian'',
                              ''American Indian'', ''Unknown'', ''Biracial''}"
    by (simp add: unknown_race_record_race)
  show ?thesis
    using clean_data_no_valid_race [OF unknown_race_record_type r, of decimal_float True]
      unknown_race_record_type unknown_race_record_race
    by (intro conjI) (simp_all only: simp_thms)
qed

text \<open>
  C7, as claimed, fails on the string: for a prison sentence of a defendant of unknown
  race the function does not return \<open>No valid race values found\<close>; what it returns
  starts with \<open>INVALID: \<close>.
\<close>

theorem clean_data_no_valid_race_counterexample:
  "clean_data decimal_float True (DataFrame PREDICT_COLUMNS [unknown_race_record])
     \<noteq> Message ''No valid race values found''"
proof -
  have r: "unknown_race_record ''RACE'' = Str ''Unknown'' \<or>
         unknown_race_record ''RACE'' \<notin> Str ` {''Black'', ''White'', ''HISPANIC'', ''White [Hispanic or Latino]'',
                              ''White/Black [Hispanic or Latino]'', ''ASIAN'', ''Asian'',
                              ''American Indian'', ''Unknown'', ''Biracial''}"
    by (simp add: unknown_race_record_race)
  have "rows (exclude_non_prison True (DataFrame PREDICT_COLUMNS [unknown_race_record])) \<noteq> []"
    by (simp add: rows_exclude_non_prison DataFrame_def RangeIndex_single
        unknown_race_record_type)
  moreover have "rows (standardize_race
      (exclude_non_prison True (DataFrame PREDICT_COLUMNS [unknown_race_record]))) = []"
    using standard_race_rejected [OF r]
    by (auto simp add: rows_standardize_race rows_exclude_non_prison DataFrame_def
        RangeIndex_single unknown_race_record_type)
  ultimately show ?thesis
    by (simp add: clean_data_def Let_def)
qed

lemma ten_payload_valid: "schema_validate PREDICT_SCHEMA (JDict ten_payload) = Some ten_payload"
  by (simp add: schema_validate_def PREDICT_SCHEMA_def ten_payload_def with_value_def
      sample_payload_def)

section \<open>A failure that is neither a schema error nor a rejection\<close>

lemma rows_standardize_gender:
  "rows (standardize_gender data) =
     map (\<lambda>r. if r ''GENDER'' \<in> {Str ''Male'', Str ''Female''} then r
               else r(''GENDER'' := Str ''Unknown'')) (rows data)"
  by (simp add: standardize_gender_def loc_assign_def isin_def)

lemma normalize_commitment_term_raises:
  "astype_column float ''COMMITMENT_TERM'' (rows data) = Inl e \<Longrightarrow>
   normalize_commitment_term float removeColumns data = Inl e"
  by (simp add: normalize_commitment_term_def)

lemma clean_data_single_raises:
  assumes "rows data = [r]"
    and "r ''SENTENCE_TYPE'' = Str ''Prison''"
    and "series_map standard_race_map (r ''RACE'') \<noteq> Str ''Unknown''"
    and "series_map standard_race_map (r ''RACE'') \<noteq> Null"
    and "r ''COMMITMENT_TERM'' = Str s" and "float s = None"
  shows "clean_data float removeColumns data = Raised ValueError"
proof -
  let ?d1 = "exclude_non_prison removeColumns data"
  let ?d2 = "standardize_race ?d1"
  let ?d3 = "standardize_gender ?d2"
  have 1: "rows ?d1 \<noteq> []"
    using assms(1,2) by (simp add: rows_exclude_non_prison)
  have 2: "rows ?d2 \<noteq> []"
    using assms(1-4) by (simp add: rows_standardize_race rows_exclude_non_prison)
  have 3: "rows ?d3 \<noteq> []"
    using 2 by (simp add: rows_standardize_gender)
  have "astype_column float ''COMMITMENT_TERM'' (rows ?d3) = Inl ValueError"
    using assms
    by (simp add: rows_standardize_gender rows_standardize_race rows_exclude_non_prison
        astype_float_def)
  then have 4: "normalize_commitment_term float removeColumns ?d3 = Inl ValueError"
    by (rule normalize_commitment_term_raises)
  show ?thesis
    using 1 2 3 4 by (simp add: clean_data_def Let_def)
qed

lemma ten_record:
  "row_of_dict ten_payload ''SENTENCE_TYPE'' = Str ''Prison''"
  "row_of_dict ten_payload ''RACE'' = Str ''Black''"
  "row_of_dict ten_payload ''COMMITMENT_TERM'' = Str ''ten''"
  by (simp_all add: row_of_dict_def ten_payload_def with_value_def sample_payload_def
      cell_of_json_def)

text \<open>
  C8 fails on the code. The sample request with its term given as the string \<open>ten\<close>
  passes the schema, which admits every non-empty string as a term; the conversion of
  the term column then raises \<open>ValueError\<close> inside \<open>clean_data\<close>, which neither returns a
  message nor is caught by \<open>predict\<close>: the request ends in a failure that is neither a
  schema error nor a cleaning message.
\<close>

theorem predict_unhandled_value_error:
  "schema_validate PREDICT_SCHEMA (JDict ten_payload) = Some ten_payload
   \<and> predict_until_clean decimal_float (JDict ten_payload) = Inl (Unhandled ValueError)"
proof -
  have "clean_data decimal_float True (frame_of_dict ten_payload) = Raised ValueError"
    by (rule clean_data_single_raises
          [where r = "(row_of_dict ten_payload)(''index'' := Integer 0)" and s = "''ten''"])
       (simp_all add: frame_of_dict_def DataFrame_def RangeIndex_single ten_record
          decimal_float_ten series_map_def standard_race_map_def)
  then show ?thesis
    by (simp add: predict_until_clean_def ten_payload_valid)
qed

section \<open>The commitment term step\<close>

lemma astype_column_rows:
  "astype_column float name rs = Inr rs' \<Longrightarrow>
   list_all2 (\<lambda>r r'. \<exists>v. astype_float float (r name) = Inr v \<and> r' = r(name := v)) rs rs'"
proof (induction rs arbitrary: rs')
  case Nil
  then show ?case by simp
next
  case (Cons r rs)
  then show ?case
    by (auto split: sum.splits)
qed

lemma list_all2_filter:
  "list_all2 R xs ys \<Longrightarrow> (\<And>x y. R x y \<Longrightarrow> P x = Q y) \<Longrightarrow>
   list_all2 R (filter P xs) (filter Q ys)"
  by (induction rule: list_all2_induct) auto

lemma list_all2_map_eq:
  "list_all2 R xs ys \<Longrightarrow> (\<And>x y. R x y \<Longrightarrow> f x = g y) \<Longrightarrow> map f xs = map g ys"
  by (induction rule: list_all2_induct) auto

lemma natural_life_to_years_rows:
  assumes "natural_life_to_years data = Inr out"
  shows "\<exists>m. median (map (\<lambda>r. r ''AGE_AT_INCIDENT'')
                 (filter (\<lambda>r. r ''COMMITMENT_UNIT'' = Str ''Natural Life'') (rows data))) = Inr m
     \<and> columns out = columns data
     \<and> rows out = map (\<lambda>r. if r ''COMMITMENT_UNIT'' = Str ''Natural Life''
                             then r(''COMMITMENT_TERM'' := natural_life_years_of m)
                             else r) (rows data)"
  using assms
  by (auto simp add: natural_life_to_years_def loc_assign_def Let_def split: sum.splits)

lemma natural_life_to_years_noop:
  assumes "list_all (\<lambda>r. r ''COMMITMENT_UNIT'' \<noteq> Str ''Natural Life'') (rows batch)"
  shows "natural_life_to_years batch = Inr batch"
proof -
  have f: "filter (\<lambda>r. r ''COMMITMENT_UNIT'' = Str ''Natural Life'') (rows batch) = []"
    using assms by (simp add: filter_empty_conv list_all_iff)
  have m: "map (\<lambda>r. if r ''COMMITMENT_UNIT'' = Str ''Natural Life'' then r(''COMMITMENT_TERM'' := v) else r)
             (rows batch) = rows batch" for v
    using assms by (simp add: list_all_iff map_idI)
  show ?thesis
    by (simp add: natural_life_to_years_def f median_def numbers_of_def median_sorted_def
        loc_assign_def m)
qed

text \<open>The rows that the commitment term step returns, in terms of the rows it is given.\<close>

lemma normalize_commitment_term_rows:
  assumes "normalize_commitment_term float removeColumns data = Inr out"
  shows "\<exists>converted m.
       astype_column float ''COMMITMENT_TERM'' (rows data) = Inr converted
     \<and> median (map (\<lambda>r. r ''AGE_AT_INCIDENT'')
                 (filter (\<lambda>r. r ''COMMITMENT_UNIT'' = Str ''Natural Life'') (rows data))) = Inr m
     \<and> rows out =
         map (\<lambda>r. if removeColumns then (\<lambda>c. if c \<in> set [''COMMITMENT_UNIT''] then Null else r c) else r)
           (map (\<lambda>r. if r ''COMMITMENT_UNIT'' = Str ''Natural Life''
                      then r(''COMMITMENT_TERM'' := natural_life_years_of m)
                      else r)
              (map (\<lambda>r. r(''COMMITMENT_TERM'' :=
                            cell_div (r ''COMMITMENT_TERM'') (divisor_col (r ''COMMITMENT_UNIT''))))
                 (filter (\<lambda>r. isin (r ''COMMITMENT_UNIT'') commitment_term_units) converted)))"
proof -
  from assms obtain converted where
    c: "astype_column float ''COMMITMENT_TERM'' (rows data) = Inr converted"
    by (auto simp add: normalize_commitment_term_def split: sum.splits)
  define divided where "divided =
    assign ''COMMITMENT_TERM''
      (\<lambda>r. cell_div (r ''COMMITMENT_TERM'') (divisor_col (r ''COMMITMENT_UNIT'')))
      (loc (\<lambda>r. isin (r ''COMMITMENT_UNIT'') commitment_term_units) (data\<lparr>rows := converted\<rparr>))"
  from assms c obtain lifed where
    l: "natural_life_to_years divided = Inr lifed"
    and o: "out = (if removeColumns then drop_columns [''COMMITMENT_UNIT''] lifed else lifed)"
    by (auto simp add: normalize_commitment_term_def divided_def Let_def split: sum.splits)
  from natural_life_to_years_rows [OF l] obtain m where
    m: "median (map (\<lambda>r. r ''AGE_AT_INCIDENT'')
                 (filter (\<lambda>r. r ''COMMITMENT_UNIT'' = Str ''Natural Life'') (rows divided))) = Inr m"
    and r: "rows lifed = map (\<lambda>r. if r ''COMMITMENT_UNIT'' = Str ''Natural Life''
                             then r(''COMMITMENT_TERM'' := natural_life_years_of m)
                             else r) (rows divided)"
    by blast
  have d: "rows divided =
      map (\<lambda>r. r(''COMMITMENT_TERM'' :=
                    cell_div (r ''COMMITMENT_TERM'') (divisor_col (r ''COMMITMENT_UNIT''))))
        (filter (\<lambda>r. isin (r ''COMMITMENT_UNIT'') commitment_term_units) converted)"
    by (simp add: divided_def assign_def loc_def)
  have rel: "list_all2 (\<lambda>r r'. \<exists>v. r' = r(''COMMITMENT_TERM'' := v)) (rows data) converted"
    using astype_column_rows [OF c] by (rule list_all2_mono) blast
  have nl: "filter (\<lambda>r. r ''COMMITMENT_UNIT'' = Str ''Natural Life'') (rows divided)
      = map (\<lambda>r. r(''COMMITMENT_TERM'' :=
                    cell_div (r ''COMMITMENT_TERM'') (divisor_col (r ''COMMITMENT_UNIT''))))
          (filter (\<lambda>r. r ''COMMITMENT_UNIT'' = Str ''Natural Life'') converted)"
    by (auto simp add: d filter_map o_def isin_def commitment_term_units_def
        intro!: arg_cong [where f = "map _"] filter_cong)
  have "list_all2 (\<lambda>r r'. \<exists>v. r' = r(''COMMITMENT_TERM'' := v))
          (filter (\<lambda>r. r ''COMMITMENT_UNIT'' = Str ''Natural Life'') (rows data))
          (filter (\<lambda>r. r ''COMMITMENT_UNIT'' = Str ''Natural Life'') converted)"
    using rel by (rule list_all2_filter) auto
  then have "map (\<lambda>r. r ''AGE_AT_INCIDENT'')
               (filter (\<lambda>r. r ''COMMITMENT_UNIT'' = Str ''Natural Life'') (rows data))
           = map (\<lambda>r. r ''AGE_AT_INCIDENT'')
               (filter (\<lambda>r. r ''COMMITMENT_UNIT'' = Str ''Natural Life'') converted)"
    by (rule list_all2_map_eq) auto
  then have ages: "map (\<lambda>r. r ''AGE_AT_INCIDENT'')
               (filter (\<lambda>r. r ''COMMITMENT_UNIT'' = Str ''Natural Life'') (rows divided))
      = map (\<lambda>r. r ''AGE_AT_INCIDENT'')
               (filter (\<lambda>r. r ''COMMITMENT_UNIT'' = Str ''Natural Life'') (rows data))"
    by (simp add: nl o_def)
  have "rows out = map (\<lambda>r. if removeColumns then (\<lambda>c. if c \<in> set [''COMMITMENT_UNIT''] then Null else r c) else r) (rows lifed)"
    by (simp add: o drop_columns_def)
  then show ?thesis
    using c m r d ages by (intro exI [of _ converted] exI [of _ m]) simp
qed

text \<open>
  The float64 values that the median is taken of: those of the cells that are not
  missing, in their order.
\<close>

lemma float_of_int_finite:
  "float_of_int i = Inr v \<Longrightarrow> v = Finite (round64 (of_int i))"
  by (auto simp add: float_of_int_def to_double_def Let_def split: double.splits if_splits)

lemma floats_of_cells:
  assumes "floats_of cs = Inr vs"
    and "\<not> list_ex (\<lambda>c. case c of Str _ \<Rightarrow> True | _ \<Rightarrow> False) cs"
  shows "list_all2 (\<lambda>c v. (\<exists>x. c = Num x \<and> v = Finite x)
                       \<or> (\<exists>s. c = Infinity s \<and> v = Infinite s)
                       \<or> (\<exists>i. c = Integer i \<and> v = Finite (round64 (of_int i)))
                       \<or> (c = Flag True \<and> v = Finite 1) \<or> (c = Flag False \<and> v = Finite 0))
           (filter (\<lambda>c. c \<noteq> Null) cs) vs"
  using assms
proof (induction cs arbitrary: vs)
  case Nil
  then show ?case
    by simp
next
  case (Cons c cs)
  from Cons.prems(1) obtain ws where ws: "floats_of cs = Inr ws"
    by (auto split: sum.splits)
  from Cons.prems(2) have "\<not> list_ex (\<lambda>c. case c of Str _ \<Rightarrow> True | _ \<Rightarrow> False) cs"
    by simp
  with ws have IH: "list_all2 (\<lambda>c v. (\<exists>x. c = Num x \<and> v = Finite x)
                       \<or> (\<exists>s. c = Infinity s \<and> v = Infinite s)
                       \<or> (\<exists>i. c = Integer i \<and> v = Finite (round64 (of_int i)))
                       \<or> (c = Flag True \<and> v = Finite 1) \<or> (c = Flag False \<and> v = Finite 0))
           (filter (\<lambda>c. c \<noteq> Null) cs) ws"
    by (rule Cons.IH)
  show ?case
  proof (cases c)
    case (Integer i)
    with Cons.prems(1) ws obtain v where "float_of_int i = Inr v" and "vs = v # ws"
      by (auto split: sum.splits)
    with IH Integer show ?thesis
      by (simp add: float_of_int_finite)
  next
    case (Flag b)
    with Cons.prems ws IH show ?thesis
      by (cases b) auto
  qed (use Cons.prems ws IH in auto)
qed

text \<open>
  The median is the middle one of the values in ascending order, or the float64 mean of
  the two in the middle.
\<close>

lemma median_middle:
  assumes "median cs = Inr m"
  shows "\<exists>vs. list_all2 (\<lambda>c v. (\<exists>x. c = Num x \<and> v = Finite x)
                       \<or> (\<exists>s. c = Infinity s \<and> v = Infinite s)
                       \<or> (\<exists>i. c = Integer i \<and> v = Finite (round64 (of_int i)))
                       \<or> (c = Flag True \<and> v = Finite 1) \<or> (c = Flag False \<and> v = Finite 0))
           (filter (\<lambda>c. c \<noteq> Null) cs) vs
     \<and> (\<forall>s. sorted s \<and> mset s = mset vs \<longrightarrow>
          m = (if s = [] then NaN
               else if odd (length s) then s ! (length s div 2)
               else double_mean (s ! (length s div 2 - 1)) (s ! (length s div 2))))"
proof -
  from assms obtain vs where vs: "numbers_of cs = Inr vs" and m: "m = median_sorted (sort vs)"
    by (auto simp add: median_def split: sum.splits)
  from vs have no_str: "\<not> list_ex (\<lambda>c. case c of Str _ \<Rightarrow> True | _ \<Rightarrow> False) cs"
    and fl: "floats_of cs = Inr vs"
    by (auto simp add: numbers_of_def split: if_splits)
  have "m = (if s = [] then NaN
             else if odd (length s) then s ! (length s div 2)
             else double_mean (s ! (length s div 2 - 1)) (s ! (length s div 2)))"
    if "sorted s \<and> mset s = mset vs" for s
  proof -
    from that have "sort vs = s"
      by (intro properties_for_sort) simp_all
    then show ?thesis
      by (simp add: m median_sorted_def Let_def)
  qed
  with floats_of_cells [OF fl no_str] show ?thesis
    by (intro exI [of _ vs]) simp
qed

text \<open>
  C5. In the commitment term step every row whose unit is Natural Life gets, as its
  term, the one value 78 less the median age of the rows whose unit is Natural Life.
  The median is spelled out: of the ages of these rows that are not missing, as float64
  values and in ascending order, it is the middle one, or the float64 mean of the two
  in the middle, or \<open>NaN\<close> when there is none; 78 less a finite median is rounded to
  float64, and the term is the missing value when the median is \<open>NaN\<close>. On a batch with
  no row whose unit is Natural Life the overwriting changes nothing. For the ages 30, 20
  and 22, whose mean is 24, the median is 22 and the value 56.
\<close>

theorem natural_life_terms:
  assumes "normalize_commitment_term float removeColumns data = Inr out"
  shows "(\<exists>ages age_when_committed.
       list_all2 (\<lambda>c v. (\<exists>x. c = Num x \<and> v = Finite x)
                       \<or> (\<exists>s. c = Infinity s \<and> v = Infinite s)
                       \<or> (\<exists>i. c = Integer i \<and> v = Finite (round64 (of_int i)))
                       \<or> (c = Flag True \<and> v = Finite 1) \<or> (c = Flag False \<and> v = Finite 0))
         (filter (\<lambda>c. c \<noteq> Null)
            (map (\<lambda>r. r ''AGE_AT_INCIDENT'')
               (filter (\<lambda>r. r ''COMMITMENT_UNIT'' = Str ''Natural Life'') (rows data))))
         ages
     \<and> (\<forall>s. sorted s \<and> mset s = mset ages \<longrightarrow>
          age_when_committed =
            (if s = [] then NaN
             else if odd (length s) then s ! (length s div 2)
             else double_mean (s ! (length s div 2 - 1)) (s ! (length s div 2))))
     \<and> list_all2
         (\<lambda>r r'. r ''COMMITMENT_UNIT'' = Str ''Natural Life'' \<longrightarrow>
            r' ''COMMITMENT_TERM'' =
              (case age_when_committed of
                 Finite a \<Rightarrow> Num (round64 (78 - a))
               | Infinite s \<Rightarrow> Infinity (\<not> s)
               | NaN \<Rightarrow> Null))
         (filter (\<lambda>r. r ''COMMITMENT_UNIT'' \<in>
                    {Str ''Year(s)'', Str ''Months'', Str ''Natural Life'', Str ''Days''})
            (rows data))
         (rows out))
   \<and> (list_all (\<lambda>r. r ''COMMITMENT_UNIT'' \<noteq> Str ''Natural Life'') (rows batch) \<longrightarrow>
        natural_life_to_years batch = Inr batch)"
proof -
  from normalize_commitment_term_rows [OF assms] obtain converted m where
    c: "astype_column float ''COMMITMENT_TERM'' (rows data) = Inr converted"
    and m: "median (map (\<lambda>r. r ''AGE_AT_INCIDENT'')
                 (filter (\<lambda>r. r ''COMMITMENT_UNIT'' = Str ''Natural Life'') (rows data))) = Inr m"
    and r: "rows out =
         map (\<lambda>r. if removeColumns then (\<lambda>c. if c \<in> set [''COMMITMENT_UNIT''] then Null else r c) else r)
           (map (\<lambda>r. if r ''COMMITMENT_UNIT'' = Str ''Natural Life''
                      then r(''COMMITMENT_TERM'' := natural_life_years_of m)
                      else r)
              (map (\<lambda>r. r(''COMMITMENT_TERM'' :=
                            cell_div (r ''COMMITMENT_TERM'') (divisor_col (r ''COMMITMENT_UNIT''))))
                 (filter (\<lambda>r. isin (r ''COMMITMENT_UNIT'') commitment_term_units) converted)))"
    by blast
  let ?units = "\<lambda>r :: row. r ''COMMITMENT_UNIT'' \<in>
                    {Str ''Year(s)'', Str ''Months'', Str ''Natural Life'', Str ''Days''}"
  let ?years = "case m of
                 Finite a \<Rightarrow> Num (round64 (78 - a))
               | Infinite s \<Rightarrow> Infinity (\<not> s)
               | NaN \<Rightarrow> Null"
  have rel: "list_all2 (\<lambda>r r'. \<exists>v. r' = r(''COMMITMENT_TERM'' := v)) (rows data) converted"
    using astype_column_rows [OF c] by (rule list_all2_mono) blast
  have "list_all2 (\<lambda>r r'. \<exists>v. r' = r(''COMMITMENT_TERM'' := v))
          (filter ?units (rows data))
          (filter (\<lambda>r. isin (r ''COMMITMENT_UNIT'') commitment_term_units) converted)"
    using rel by (rule list_all2_filter) (auto simp add: isin_def commitment_term_units_def)
  then have terms: "list_all2
         (\<lambda>r r'. r ''COMMITMENT_UNIT'' = Str ''Natural Life'' \<longrightarrow> r' ''COMMITMENT_TERM'' = ?years)
         (filter ?units (rows data)) (rows out)"
    unfolding r list_all2_map2
    by (rule list_all2_mono) (auto simp add: natural_life_years_of_def)
  from median_middle [OF m] obtain ages where
    ages: "list_all2 (\<lambda>c v. (\<exists>x. c = Num x \<and> v = Finite x)
                       \<or> (\<exists>s. c = Infinity s \<and> v = Infinite s)
                       \<or> (\<exists>i. c = Integer i \<and> v = Finite (round64 (of_int i)))
                       \<or> (c = Flag True \<and> v = Finite 1) \<or> (c = Flag False \<and> v = Finite 0))
         (filter (\<lambda>c. c \<noteq> Null)
            (map (\<lambda>r. r ''AGE_AT_INCIDENT'')
               (filter (\<lambda>r. r ''COMMITMENT_UNIT'' = Str ''Natural Life'') (rows data))))
         ages"
    and middle: "\<forall>s. sorted s \<and> mset s = mset ages \<longrightarrow>
          m = (if s = [] then NaN
               else if odd (length s) then s ! (length s div 2)
               else double_mean (s ! (length s div 2 - 1)) (s ! (length s div 2)))"
    by blast
  from ages middle terms show ?thesis
    using natural_life_to_years_noop by (intro conjI exI [of _ ages] exI [of _ m] impI)
qed

lemma natural_life_record_cells:
  "natural_life_record age ''COMMITMENT_UNIT'' = Str ''Natural Life''"
  "natural_life_record age ''AGE_AT_INCIDENT'' = age"
  by (simp_all add: natural_life_record_def)

lemma natural_life_batch_units:
  "map (\<lambda>r. r ''COMMITMENT_UNIT'') (rows (natural_life_batch ages))
     = map (\<lambda>age. Str ''Natural Life'') ages"
  by (simp add: natural_life_batch_def rows_DataFrame column_RangeIndex o_def
      natural_life_record_cells)

lemma natural_life_batch_unit:
  assumes "r \<in> set (rows (natural_life_batch ages))"
  shows "r ''COMMITMENT_UNIT'' = Str ''Natural Life''"
proof -
  from assms have "r ''COMMITMENT_UNIT'' \<in> set (map (\<lambda>r. r ''COMMITMENT_UNIT'') (rows (natural_life_batch ages)))"
    by simp
  then show ?thesis
    unfolding natural_life_batch_units by auto
qed

lemma natural_life_batch_ages:
  "map (\<lambda>r. r ''AGE_AT_INCIDENT'')
     (filter (\<lambda>r. r ''COMMITMENT_UNIT'' = Str ''Natural Life'') (rows (natural_life_batch ages)))
   = ages"
proof -
  have "filter (\<lambda>r. r ''COMMITMENT_UNIT'' = Str ''Natural Life'') (rows (natural_life_batch ages))
      = rows (natural_life_batch ages)"
    by (simp add: filter_id_conv natural_life_batch_unit)
  then show ?thesis
    by (simp add: natural_life_batch_def rows_DataFrame column_RangeIndex o_def
        natural_life_record_cells)
qed

lemma natural_life_batch_kept:
  "filter (\<lambda>r. r ''COMMITMENT_UNIT'' \<in>
             {Str ''Year(s)'', Str ''Months'', Str ''Natural Life'', Str ''Days''})
     (rows (natural_life_batch ages)) = rows (natural_life_batch ages)"
  by (simp add: filter_id_conv natural_life_batch_unit)

lemma natural_life_batch_length: "length (rows (natural_life_batch ages)) = length ages"
  by (simp add: natural_life_batch_def rows_DataFrame length_RangeIndex)

lemma natural_life_batches_cleaned:
  "map_sum id (\<lambda>d. map (\<lambda>r. r ''COMMITMENT_TERM'') (rows d))
     (normalize_commitment_term decimal_float True (natural_life_batch [Num 30, Integer 20, Num 22]))
     = Inr [Num 56, Num 56, Num 56]"
  "map_sum id (\<lambda>d. map (\<lambda>r. r ''COMMITMENT_TERM'') (rows d))
     (normalize_commitment_term decimal_float True (natural_life_batch [Num 20, Num 22, Num 24]))
     = Inr [Num 56, Num 56, Num 56]"
  "map_sum id (\<lambda>d. map (\<lambda>r. r ''COMMITMENT_TERM'') (rows d))
     (normalize_commitment_term decimal_float True
        (natural_life_batch [Num 61, Integer 20, Num 22, Num 25]))
     = Inr [Num 54.5, Num 54.5, Num 54.5, Num 54.5]"
  by code_simp+

lemma sample_record_unit: "sample_record ''COMMITMENT_UNIT'' = Str ''Year(s)''"
  by (simp add: sample_record_def row_of_dict_def sample_payload_def cell_of_json_def)

theorem natural_life_terms_witness:
  "(\<exists>out. normalize_commitment_term decimal_float True
             (natural_life_batch [Num 30, Integer 20, Num 22]) = Inr out
     \<and> map (\<lambda>r. r ''COMMITMENT_TERM'') (rows out) = [Num 56, Num 56, Num 56])
   \<and> (\<exists>out. normalize_commitment_term decimal_float True
             (natural_life_batch [Num 20, Num 22, Num 24]) = Inr out
     \<and> map (\<lambda>r. r ''COMMITMENT_TERM'') (rows out) = [Num 56, Num 56, Num 56])
   \<and> (\<exists>out. normalize_commitment_term decimal_float True
             (natural_life_batch [Num 61, Integer 20, Num 22, Num 25]) = Inr out
     \<and> map (\<lambda>r. r ''COMMITMENT_TERM'') (rows out) = [Num 54.5, Num 54.5, Num 54.5, Num 54.5])
   \<and> list_all (\<lambda>r. r ''COMMITMENT_UNIT'' \<noteq> Str ''Natural Life'') (rows sample_frame)
   \<and> natural_life_to_years sample_frame = Inr sample_frame"
proof -
  let ?batch = "natural_life_batch [Num 30, Integer 20, Num 22]"
  have none: "list_all (\<lambda>r. r ''COMMITMENT_UNIT'' \<noteq> Str ''Natural Life'') (rows sample_frame)"
    by (simp add: sample_frame_def DataFrame_def RangeIndex_single sample_record_unit)
  from natural_life_batches_cleaned(1) obtain out where
    o: "normalize_commitment_term decimal_float True ?batch = Inr out"
    by (cases "normalize_commitment_term decimal_float True ?batch") simp_all
  from natural_life_terms [OF o, of sample_frame] obtain ages m where
    ages: "list_all2 (\<lambda>c v. (\<exists>x. c = Num x \<and> v = Finite x)
                       \<or> (\<exists>s. c = Infinity s \<and> v = Infinite s)
                       \<or> (\<exists>i. c = Integer i \<and> v = Finite (round64 (of_int i)))
                       \<or> (c = Flag True \<and> v = Finite 1) \<or> (c = Flag False \<and> v = Finite 0))
         (filter (\<lambda>c. c \<noteq> Null)
            (map (\<lambda>r. r ''AGE_AT_INCIDENT'')
               (filter (\<lambda>r. r ''COMMITMENT_UNIT'' = Str ''Natural Life'') (rows ?batch))))
         ages"
    and middle: "\<forall>s. sorted s \<and> mset s = mset ages \<longrightarrow>
          m = (if s = [] then NaN
               else if odd (length s) then s ! (length s div 2)
               else double_mean (s ! (length s div 2 - 1)) (s ! (length s div 2)))"
    and terms: "list_all2
         (\<lambda>r r'. r ''COMMITMENT_UNIT'' = Str ''Natural Life'' \<longrightarrow>
            r' ''COMMITMENT_TERM'' =
              (case m of
                 Finite a \<Rightarrow> Num (round64 (78 - a))
               | Infinite s \<Rightarrow> Infinity (\<not> s)
               | NaN \<Rightarrow> Null))
         (filter (\<lambda>r. r ''COMMITMENT_UNIT'' \<in>
                    {Str ''Year(s)'', Str ''Months'', Str ''Natural Life'', Str ''Days''})
            (rows ?batch))
         (rows out)"
    and noop: "list_all (\<lambda>r. r ''COMMITMENT_UNIT'' \<noteq> Str ''Natural Life'') (rows sample_frame) \<longrightarrow>
        natural_life_to_years sample_frame = Inr sample_frame"
    by blast
  from ages have a: "ages = [Finite 30, Finite 20, Finite 22]"
    unfolding natural_life_batch_ages
    by (auto simp add: list_all2_Cons1 round64_numeral)
  have "sorted [Finite 20, Finite 22, Finite 30] \<and> mset [Finite 20, Finite 22, Finite 30] = mset ages"
    by (simp add: a less_eq_double_def)
  from middle [rule_format, OF this] have m: "m = Finite 22"
    by simp
  have "list_all2 (\<lambda>r r'. r' ''COMMITMENT_TERM'' = Num 56) (rows ?batch) (rows out)"
    using terms unfolding natural_life_batch_kept m
    by (rule list.rel_mono_strong) (simp add: natural_life_batch_unit round64_numeral)
  then have "map (\<lambda>r. Num 56) (rows ?batch) = map (\<lambda>r. r ''COMMITMENT_TERM'') (rows out)"
    by (rule list_all2_map_eq) simp
  moreover have "map (\<lambda>r. Num 56) (rows ?batch) = [Num 56, Num 56, Num 56]"
    by (simp add: map_replicate_const natural_life_batch_length numeral_3_eq_3)
  ultimately have t: "map (\<lambda>r. r ''COMMITMENT_TERM'') (rows out) = [Num 56, Num 56, Num 56]"
    by simp
  from o t have first: "\<exists>out. normalize_commitment_term decimal_float True ?batch = Inr out
     \<and> map (\<lambda>r. r ''COMMITMENT_TERM'') (rows out) = [Num 56, Num 56, Num 56]"
    by (intro exI [of _ out] conjI)
  have second: "\<exists>out. normalize_commitment_term decimal_float True
             (natural_life_batch [Num 20, Num 22, Num 24]) = Inr out
     \<and> map (\<lambda>r. r ''COMMITMENT_TERM'') (rows out) = [Num 56, Num 56, Num 56]"
    using natural_life_batches_cleaned(2)
    by (cases "normalize_commitment_term decimal_float True
                 (natural_life_batch [Num 20, Num 22, Num 24])") simp_all
  have third: "\<exists>out. normalize_commitment_term decimal_float True
             (natural_life_batch [Num 61, Integer 20, Num 22, Num 25]) = Inr out
     \<and> map (\<lambda>r. r ''COMMITMENT_TERM'') (rows out) = [Num 54.5, Num 54.5, Num 54.5, Num 54.5]"
    using natural_life_batches_cleaned(3)
    by (cases "normalize_commitment_term decimal_float True
                 (natural_life_batch [Num 61, Integer 20, Num 22, Num 25])") simp_all
  from noop none have "natural_life_to_years sample_frame = Inr sample_frame"
    by (rule mp)
  with first second third none show ?thesis
    by (intro conjI)
qed

section \<open>The cardinality reduction\<close>

lemma column_consolidate:
  "map (\<lambda>r. r name) (rows (consolidate name n data))
     = merge_rare n (map (\<lambda>r. r name) (rows data))"
  by (simp add: consolidate_def merge_rare_def loc_assign_def isin_def Let_def o_def)

lemma column_consolidate_other:
  "c \<noteq> name \<Longrightarrow>
   map (\<lambda>r. r c) (rows (consolidate name n data)) = map (\<lambda>r. r c) (rows data)"
  by (simp add: consolidate_def loc_assign_def Let_def o_def)

lemma agency_column_reduced:
  "map (\<lambda>r. r ''LAW_ENFORCEMENT_AGENCY'') (rows (reduce_cardinality top_ns data))
     = merge_rare 20 (map (\<lambda>r. r ''LAW_ENFORCEMENT_AGENCY'') (rows data))"
  by (simp add: reduce_cardinality_def top_ns_def column_consolidate column_consolidate_other)

lemma agency_column_batch:
  "map (\<lambda>r. r ''LAW_ENFORCEMENT_AGENCY'') (rows agencies_batch) = map Str agency_names"
  by (simp add: agencies_batch_def DataFrame_def column_RangeIndex o_def)

lemma agencies_once:
  "merge_rare 20 (map Str agency_names)
     = map Str (take 20 agency_names @ [''misc_other'', ''misc_other''])"
  by code_simp

lemma agencies_twice:
  "merge_rare 20 (map Str (take 20 agency_names @ [''misc_other'', ''misc_other'']))
     = map Str (take 19 agency_names @ [''misc_other'', ''misc_other'', ''misc_other''])"
  by code_simp

lemma agencies_differ:
  "map Str (take 19 agency_names @ [''misc_other'', ''misc_other'', ''misc_other''])
     \<noteq> map Str (take 20 agency_names @ [''misc_other'', ''misc_other''])"
  by code_simp

text \<open>
  C10, as claimed, fails. Of 22 agencies that occur once each, the first pass keeps 20
  and merges two into \<open>misc_other\<close>, which now occurs twice and is the most frequent
  value of 21; the second pass keeps 20 of these and merges one more agency. Whichever
  of the equally frequent values ranks last, the second pass changes the batch.
\<close>

theorem reduce_cardinality_idempotent_counterexample:
  "reduce_cardinality top_ns (reduce_cardinality top_ns agencies_batch)
     \<noteq> reduce_cardinality top_ns agencies_batch"
proof
  assume "reduce_cardinality top_ns (reduce_cardinality top_ns agencies_batch)
     = reduce_cardinality top_ns agencies_batch"
  then have "map (\<lambda>r. r ''LAW_ENFORCEMENT_AGENCY'')
               (rows (reduce_cardinality top_ns (reduce_cardinality top_ns agencies_batch)))
           = map (\<lambda>r. r ''LAW_ENFORCEMENT_AGENCY'')
               (rows (reduce_cardinality top_ns agencies_batch))"
    by simp
  then have "merge_rare 20 (merge_rare 20 (map Str agency_names))
      = merge_rare 20 (map Str agency_names)"
    by (simp only: agency_column_reduced agency_column_batch)
  then have "map Str (take 19 agency_names @ [''misc_other'', ''misc_other'', ''misc_other''])
      = map Str (take 20 agency_names @ [''misc_other'', ''misc_other''])"
    by (simp only: agencies_once agencies_twice)
  with agencies_differ show False
    by (rule notE)
qed

lemma length_unique: "length (unique xs) = card (set xs)"
proof (induction xs rule: unique.induct)
  case 1
  then show ?case by simp
next
  case (2 x xs)
  have "set (filter (\<lambda>y. y \<noteq> x) xs) = set xs - {x}"
    by auto
  with 2 show ?case
    by (simp add: card.insert_remove)
qed

lemma length_value_counts: "length (value_counts col) = card (set col - {Null})"
proof -
  have "card (set (filter (\<lambda>c. c \<noteq> Null) col)) = card (set col - {Null})"
    by (rule arg_cong [where f = card]) auto
  then show ?thesis
    by (simp only: value_counts_def Let_def length_sort length_map length_unique)
qed

lemma consolidate_few:
  assumes "card (set (map (\<lambda>r. r name) (rows data)) - {Null}) \<le> n"
  shows "consolidate name n data = data"
proof -
  have "drop n (value_counts (map (\<lambda>r. r name) (rows data))) = []"
    using assms by (simp add: length_value_counts)
  then show ?thesis
    by (simp add: consolidate_def loc_assign_def isin_def)
qed

lemma reduce_cardinality_few:
  assumes "list_all (\<lambda>(name, n). card (set (map (\<lambda>r. r name) (rows data)) - {Null}) \<le> n) tops"
  shows "reduce_cardinality tops data = data"
  using assms
proof (induction tops)
  case Nil
  then show ?case
    by (simp add: reduce_cardinality_def)
next
  case (Cons top tops)
  obtain name n where top: "top = (name, n)"
    by (cases top)
  from Cons.prems have "card (set (map (\<lambda>r. r name) (rows data)) - {Null}) \<le> n"
    by (simp add: top)
  then have same: "consolidate name n data = data"
    by (rule consolidate_few)
  from Cons.prems have "reduce_cardinality tops data = data"
    by (intro Cons.IH) simp
  then show ?case
    by (simp add: reduce_cardinality_def top same)
qed

lemma set_unique: "set (unique xs) = set xs"
  by (induction xs rule: unique.induct) auto

lemma value_counts_keys: "set (map fst (value_counts col)) = set col - {Null}"
  by (auto simp add: value_counts_def Let_def set_unique image_iff)

lemma merge_rare_few:
  assumes "card (set col - {Null}) \<le> n"
  shows "merge_rare n col = col"
proof -
  have "drop n (value_counts col) = []"
    using assms by (simp add: length_value_counts)
  then show ?thesis
    by (simp add: merge_rare_def)
qed

lemma merge_rare_values:
  "set (merge_rare n col) - {Null}
     \<subseteq> insert (Str ''misc_other'') (set (take n (map fst (value_counts col))))"
proof
  fix x
  assume x: "x \<in> set (merge_rare n col) - {Null}"
  then have "x \<in> (\<lambda>v. if v \<in> set (map fst (drop n (value_counts col)))
                      then Str ''misc_other'' else v) ` set col"
    by (simp only: merge_rare_def set_map Diff_iff)
  then obtain v where v: "v \<in> set col"
    and xv: "x = (if v \<in> set (map fst (drop n (value_counts col))) then Str ''misc_other'' else v)"
    by (rule imageE)
  show "x \<in> insert (Str ''misc_other'') (set (take n (map fst (value_counts col))))"
  proof (cases "v \<in> set (map fst (drop n (value_counts col)))")
    case True
    then show ?thesis
      using xv by simp
  next
    case False
    with x xv v have "v \<in> set col - {Null}"
      by simp
    then have "v \<in> set (map fst (value_counts col))"
      by (simp only: value_counts_keys)
    then have "v \<in> set (take n (map fst (value_counts col)) @ drop n (map fst (value_counts col)))"
      by (simp only: append_take_drop_id)
    with False have "v \<in> set (take n (map fst (value_counts col)))"
      by (simp add: drop_map)
    then show ?thesis
      using xv False by simp
  qed
qed

lemma merge_rare_card: "card (set (merge_rare n col) - {Null}) \<le> Suc n"
proof -
  let ?top = "set (take n (map fst (value_counts col)))"
  have "card (set (merge_rare n col) - {Null}) \<le> card (insert (Str ''misc_other'') ?top)"
    by (rule card_mono [OF _ merge_rare_values]) simp
  also have "\<dots> \<le> Suc (card ?top)"
    by (simp add: card_insert_le_m1)
  also have "card ?top \<le> n"
    using card_length [of "take n (map fst (value_counts col))"] by simp
  finally show ?thesis
    by simp
qed

lemma merge_rare_misc:
  assumes "n < card (set col - {Null})"
  shows "Str ''misc_other'' \<in> set (merge_rare n col)"
proof -
  have "drop n (value_counts col) \<noteq> []"
    using assms by (simp add: length_value_counts)
  then obtain v where v: "v \<in> set (map fst (drop n (value_counts col)))"
    by (cases "drop n (value_counts col)") auto
  then have "v \<in> set (map fst (value_counts col))"
    by (metis drop_map in_set_dropD)
  then have "v \<in> set col - {Null}"
    by (simp only: value_counts_keys)
  then have "v \<in> set col"
    by simp
  with v show ?thesis
    by (force simp add: merge_rare_def image_iff)
qed

lemma merge_rare_stable:
  "merge_rare n (merge_rare n (merge_rare n col)) = merge_rare n (merge_rare n col)"
proof (cases "card (set col - {Null}) \<le> n")
  case True
  then show ?thesis
    by (simp add: merge_rare_few)
next
  case False
  let ?c1 = "merge_rare n col"
  let ?c2 = "merge_rare n ?c1"
  from False have misc: "Str ''misc_other'' \<in> set ?c1"
    by (simp add: merge_rare_misc)
  show ?thesis
  proof (cases "card (set ?c1 - {Null}) \<le> n")
    case True
    then show ?thesis
      by (simp add: merge_rare_few)
  next
    case False
    with merge_rare_card [of n col] have card1: "card (set ?c1 - {Null}) = Suc n"
      by simp
    then have "length (drop n (value_counts ?c1)) = 1"
      by (simp add: length_value_counts)
    then obtain p where p: "drop n (value_counts ?c1) = [p]"
      by (cases "drop n (value_counts ?c1)") auto
    obtain v where v: "v = fst p"
      by simp
    have c2: "?c2 = map (\<lambda>x. if x = v then Str ''misc_other'' else x) ?c1"
      by (subst (1) merge_rare_def) (simp add: p v)
    have "v \<in> set (map fst (drop n (value_counts ?c1)))"
      by (simp add: p v)
    then have "v \<in> set (map fst (value_counts ?c1))"
      by (metis drop_map in_set_dropD)
    then have vin: "v \<in> set ?c1 - {Null}"
      by (simp only: value_counts_keys)
    show ?thesis
    proof (cases "v = Str ''misc_other''")
      case True
      have "?c2 = ?c1"
        unfolding c2 True by (rule map_idI) simp
      then show ?thesis
        by simp
    next
      case False
      have "set ?c2 - {Null} \<subseteq> (set ?c1 - {Null}) - {v}"
        unfolding c2 using misc False by auto
      then have "card (set ?c2 - {Null}) \<le> card ((set ?c1 - {Null}) - {v})"
        by (intro card_mono) simp_all
      also have "\<dots> = n"
        using vin card1 by simp
      finally show ?thesis
        by (rule merge_rare_few)
    qed
  qed
qed

lemma consolidate_fixed:
  assumes "merge_rare n (map (\<lambda>r. r name) (rows data)) = map (\<lambda>r. r name) (rows data)"
  shows "consolidate name n data = data"
proof -
  let ?cats = "map fst (drop n (value_counts (map (\<lambda>r. r name) (rows data))))"
  have "(if r name \<in> set ?cats then r(name := Str ''misc_other'') else r) = r"
    if "r \<in> set (rows data)" for r
  proof -
    from assms that have "(if r name \<in> set ?cats then Str ''misc_other'' else r name) = r name"
      by (auto simp add: merge_rare_def map_eq_conv)
    then show ?thesis
      by (auto split: if_splits)
  qed
  then have "map (\<lambda>r. if r name \<in> set ?cats then r(name := Str ''misc_other'') else r) (rows data)
      = rows data"
    by (simp add: map_idI)
  then show ?thesis
    by (simp add: consolidate_def loc_assign_def isin_def)
qed

lemma reduce_cardinality_fixed:
  assumes "list_all (\<lambda>(name, n).
      merge_rare n (map (\<lambda>r. r name) (rows data)) = map (\<lambda>r. r name) (rows data)) tops"
  shows "reduce_cardinality tops data = data"
  using assms
proof (induction tops)
  case Nil
  then show ?case
    by (simp add: reduce_cardinality_def)
next
  case (Cons top tops)
  obtain name n where top: "top = (name, n)"
    by (cases top)
  from Cons.prems have "consolidate name n data = data"
    by (intro consolidate_fixed) (simp add: top)
  moreover from Cons.prems have "reduce_cardinality tops data = data"
    by (intro Cons.IH) simp
  ultimately show ?case
    by (simp add: reduce_cardinality_def top)
qed

lemma column_reduce_cardinality_other:
  assumes "name \<notin> fst ` set tops"
  shows "map (\<lambda>r. r name) (rows (reduce_cardinality tops data)) = map (\<lambda>r. r name) (rows data)"
  using assms
proof (induction tops arbitrary: data)
  case Nil
  then show ?case
    by (simp add: reduce_cardinality_def)
next
  case (Cons top tops)
  obtain name' n where top: "top = (name', n)"
    by (cases top)
  have step: "reduce_cardinality (top # tops) data = reduce_cardinality tops (consolidate name' n data)"
    by (simp add: reduce_cardinality_def top)
  from Cons.prems show ?case
    unfolding step by (simp add: Cons.IH top column_consolidate_other)
qed

lemma column_reduce_cardinality:
  assumes "distinct (map fst tops)" and "(name, n) \<in> set tops"
  shows "map (\<lambda>r. r name) (rows (reduce_cardinality tops data))
           = merge_rare n (map (\<lambda>r. r name) (rows data))"
  using assms
proof (induction tops arbitrary: data)
  case Nil
  then show ?case
    by simp
next
  case (Cons top tops)
  obtain name' n' where top: "top = (name', n')"
    by (cases top)
  have step: "reduce_cardinality (top # tops) data = reduce_cardinality tops (consolidate name' n' data)"
    by (simp add: reduce_cardinality_def top)
  show ?case
  proof (cases "(name, n) = top")
    case True
    with Cons.prems(1) have "name \<notin> fst ` set tops"
      by (auto simp add: top)
    then show ?thesis
      unfolding step using True
      by (simp add: column_reduce_cardinality_other top column_consolidate)
  next
    case False
    with Cons.prems have in_tops: "(name, n) \<in> set tops" and other: "name \<noteq> name'"
      by (auto simp add: top image_iff)
    from Cons.prems(1) have "distinct (map fst tops)"
      by simp
    then show ?thesis
      unfolding step using in_tops other
      by (simp add: Cons.IH column_consolidate_other)
  qed
qed

lemma reduce_cardinality_twice_fixed:
  assumes "distinct (map fst tops)"
  shows "reduce_cardinality tops (reduce_cardinality tops (reduce_cardinality tops data))
           = reduce_cardinality tops (reduce_cardinality tops data)"
proof (rule reduce_cardinality_fixed)
  show "list_all (\<lambda>(name, n).
      merge_rare n (map (\<lambda>r. r name) (rows (reduce_cardinality tops (reduce_cardinality tops data))))
        = map (\<lambda>r. r name) (rows (reduce_cardinality tops (reduce_cardinality tops data)))) tops"
    unfolding list_all_iff
  proof (intro ballI, clarify)
    fix name n
    assume "(name, n) \<in> set tops"
    then show "merge_rare n (map (\<lambda>r. r name)
                  (rows (reduce_cardinality tops (reduce_cardinality tops data))))
        = map (\<lambda>r. r name) (rows (reduce_cardinality tops (reduce_cardinality tops data)))"
      by (simp add: column_reduce_cardinality [OF assms] merge_rare_stable)
  qed
qed

text \<open>
  C10, amended. The cardinality reduction is stable from its second pass on: a pass over
  a batch that was reduced twice yields that same batch, in the notebook and in the
  server. A second pass over a batch that was reduced once yields that same batch
  whenever the once reduced batch holds, in each listed field, at most the field's
  top-N number of distinct values.
\<close>

theorem reduce_cardinality_stable:
  "reduce_cardinality top_ns (reduce_cardinality top_ns (reduce_cardinality top_ns data))
     = reduce_cardinality top_ns (reduce_cardinality top_ns data)
   \<and> reduce_cardinality top_ns_server
       (reduce_cardinality top_ns_server (reduce_cardinality top_ns_server data))
     = reduce_cardinality top_ns_server (reduce_cardinality top_ns_server data)
   \<and> (list_all (\<lambda>(name, n).
          card (set (map (\<lambda>r. r name) (rows (reduce_cardinality tops data))) - {Null}) \<le> n) tops
        \<longrightarrow> reduce_cardinality tops (reduce_cardinality tops data)
              = reduce_cardinality tops data)"
proof -
  have "distinct (map fst top_ns)" and "distinct (map fst top_ns_server)"
    by (simp_all add: top_ns_def top_ns_server_def)
  then show ?thesis
    by (simp add: reduce_cardinality_twice_fixed reduce_cardinality_few)
qed

theorem reduce_cardinality_stable_witness:
  "list_all (\<lambda>(name, n).
      card (set (map (\<lambda>r. r name) (rows (reduce_cardinality top_ns sample_frame))) - {Null}) \<le> n)
     top_ns
   \<and> reduce_cardinality top_ns (reduce_cardinality top_ns sample_frame)
       = reduce_cardinality top_ns sample_frame
   \<and> reduce_cardinality top_ns
         (reduce_cardinality top_ns (reduce_cardinality top_ns agencies_batch))
       = reduce_cardinality top_ns (reduce_cardinality top_ns agencies_batch)"
proof -
  have few: "list_all (\<lambda>(name, n).
      card (set (map (\<lambda>r. r name) (rows sample_frame)) - {Null}) \<le> n) top_ns"
    by (simp add: top_ns_def sample_frame_def DataFrame_def RangeIndex_single
        card_Diff_singleton_if)
  then have same: "reduce_cardinality top_ns sample_frame = sample_frame"
    by (rule reduce_cardinality_few)
  have h: "list_all (\<lambda>(name, n).
      card (set (map (\<lambda>r. r name) (rows (reduce_cardinality top_ns sample_frame))) - {Null}) \<le> n)
     top_ns"
    unfolding same by (rule few)
  have once: "reduce_cardinality top_ns (reduce_cardinality top_ns sample_frame)
       = reduce_cardinality top_ns sample_frame"
    using reduce_cardinality_stable [of sample_frame top_ns] h by blast
  have twice: "reduce_cardinality top_ns
         (reduce_cardinality top_ns (reduce_cardinality top_ns agencies_batch))
       = reduce_cardinality top_ns (reduce_cardinality top_ns agencies_batch)"
    using reduce_cardinality_stable [of agencies_batch top_ns] by blast
  show ?thesis
    using h once twice by (intro conjI)
qed

section \<open>The commitment term of a cleaned frame\<close>

text \<open>
  Every step of the cleaning filters the rows or rewrites them one by one, so the rows
  of a result correspond, in their order, to a subsequence of the rows of the batch.
  The lemmas below carry a relation between a record and its row through a filter, a
  rewriting of every row, and a step that is known by a relation only.
\<close>

lemma traced_filter:
  assumes "\<exists>kept. subseq kept xs \<and> list_all2 R kept ys"
  shows "\<exists>kept. subseq kept xs \<and> list_all2 (\<lambda>x y. R x y \<and> P y) kept (filter P ys)"
proof -
  from assms obtain kept where k: "subseq kept xs" and r: "list_all2 R kept ys"
    by blast
  from r have "\<exists>kept'. subseq kept' kept \<and> list_all2 (\<lambda>x y. R x y \<and> P y) kept' (filter P ys)"
  proof (induction rule: list_all2_induct)
    case Nil
    then show ?case by simp
  next
    case (Cons x xs y ys)
    then obtain kept' where "subseq kept' xs"
      and "list_all2 (\<lambda>x y. R x y \<and> P y) kept' (filter P ys)"
      by blast
    then show ?case
      using Cons.hyps(1)
      by (cases "P y") (auto intro: exI [of _ "x # kept'"] exI [of _ kept'])
  qed
  then show ?thesis
    using k subseq_order.trans by blast
qed

lemma traced_map:
  assumes "\<exists>kept. subseq kept xs \<and> list_all2 R kept ys"
    and "\<And>x y. R x y \<Longrightarrow> S x (f y)"
  shows "\<exists>kept. subseq kept xs \<and> list_all2 S kept (map f ys)"
proof -
  from assms(1) obtain kept where k: "subseq kept xs" and r: "list_all2 R kept ys"
    by blast
  from r have "list_all2 S kept (map f ys)"
    unfolding list_all2_map2 by (rule list_all2_mono) (rule assms(2))
  with k show ?thesis
    by blast
qed

lemma traced_rel:
  assumes "\<exists>kept. subseq kept xs \<and> list_all2 R kept ys"
    and "list_all2 Q ys zs"
    and "\<And>x y z. R x y \<Longrightarrow> Q y z \<Longrightarrow> S x z"
  shows "\<exists>kept. subseq kept xs \<and> list_all2 S kept zs"
proof -
  from assms(1) obtain kept where k: "subseq kept xs" and r: "list_all2 R kept ys"
    by blast
  have "list_all2 S kept zs"
    using assms(3) r assms(2) by (rule list_all2_trans)
  with k show ?thesis
    by blast
qed

lemma traced_mono:
  assumes "\<exists>kept. subseq kept xs \<and> list_all2 R kept ys"
    and "\<And>x y. R x y \<Longrightarrow> S x y"
  shows "\<exists>kept. subseq kept xs \<and> list_all2 S kept ys"
  using assms by (meson list_all2_mono)

lemma traced_start: "\<exists>kept. subseq kept xs \<and> list_all2 (=) kept xs"
  by (intro exI [of _ xs]) (simp add: list.rel_eq)

text \<open>
  Every step keeps the label of a row, and the labels of a batch are the positions of
  its records. So a row of the result is the row of the record at the position that its
  label names.
\<close>

lemma traced_labels:
  assumes "\<exists>kept. subseq kept (RangeIndex records)
             \<and> list_all2 (\<lambda>r r'. label r' = label r \<and> R r r') kept ys"
    and "\<And>r v r'. R (r(''index'' := v)) r' \<Longrightarrow> R r r'"
  shows "subseq (map label ys) (map (\<lambda>i. Integer (int i)) [0 ..< length records])
     \<and> (\<forall>i < length records. \<forall>r' \<in> set ys. label r' = Integer (int i) \<longrightarrow> R (records ! i) r')"
proof -
  from assms(1) obtain kept where k: "subseq kept (RangeIndex records)"
    and r: "list_all2 (\<lambda>r r'. label r' = label r \<and> R r r') kept ys"
    by blast
  have "map label kept = map label ys"
    using r by (rule list_all2_map_eq) simp
  moreover have "subseq (map label kept) (map label (RangeIndex records))"
    using k by (rule subseq_map)
  ultimately have 1: "subseq (map label ys) (map (\<lambda>i. Integer (int i)) [0 ..< length records])"
    by (simp add: labels_RangeIndex)
  have 2: "R (records ! i) r'"
    if i: "i < length records" and r': "r' \<in> set ys" and l: "label r' = Integer (int i)" for i r'
  proof -
    from r' obtain n where n: "n < length ys" and yn: "ys ! n = r'"
      by (auto simp add: in_set_conv_nth)
    from r n have "label (ys ! n) = label (kept ! n) \<and> R (kept ! n) (ys ! n)"
      by (rule list_all2_nthD2)
    moreover from r n have "kept ! n \<in> set kept"
      by (simp add: list_all2_lengthD)
    ultimately obtain r0 where r0: "r0 \<in> set kept" and l0: "label r' = label r0" and R0: "R r0 r'"
      using yn by blast
    from k r0 obtain r1 where "r1 \<in> set (RangeIndex records)" and "r0 = r1"
      by (rule list_emb_set)
    then obtain j where j: "j < length records" and rj: "r0 = RangeIndex records ! j"
      by (auto simp add: in_set_conv_nth length_RangeIndex)
    from rj j have e: "r0 = (records ! j)(''index'' := Integer (int j))"
      by (simp add: nth_RangeIndex)
    with l l0 have "j = i"
      by (simp add: label_def)
    with R0 e show ?thesis
      using assms(2) by blast
  qed
  from 1 2 show ?thesis
    by blast
qed

lemma astype_float_numeric:
  "astype_float float c = Inr v \<Longrightarrow> v = Null \<or> (\<exists>x. v = Num x) \<or> (\<exists>s. v = Infinity s)"
  by (cases c)
     (auto simp add: astype_float_def cell_of_def split: option.splits sum.splits double.splits)

lemma cell_div_numeric:
  "cell_div c d = Null \<or> (\<exists>x. cell_div c d = Num x) \<or> (\<exists>s. cell_div c d = Infinity s)"
  by (cases c) (simp_all add: cell_div_def)

lemma natural_life_years_numeric:
  "natural_life_years_of m = Null \<or> (\<exists>x. natural_life_years_of m = Num x)
     \<or> (\<exists>s. natural_life_years_of m = Infinity s)"
  by (cases m) (simp_all add: natural_life_years_of_def)

lemma columns_exclude_non_prison:
  "c \<noteq> ''SENTENCE_TYPE'' \<Longrightarrow>
   c \<in> set (columns (exclude_non_prison removeColumns data)) \<longleftrightarrow> c \<in> set (columns data)"
  by (simp add: exclude_non_prison_def loc_def drop_columns_def Let_def)

lemma columns_standardize_race: "columns (standardize_race data) = columns data"
  by (simp add: standardize_race_def assign_def loc_def Let_def)

lemma columns_standardize_gender: "columns (standardize_gender data) = columns data"
  by (simp add: standardize_gender_def loc_assign_def)

lemma columns_natural_life_to_years:
  "natural_life_to_years data = Inr out \<Longrightarrow> columns out = columns data"
  by (auto simp add: natural_life_to_years_def loc_assign_def Let_def split: sum.splits)

lemma columns_normalize_commitment_term:
  assumes "normalize_commitment_term float removeColumns data = Inr out"
    and "c \<noteq> ''COMMITMENT_UNIT''"
  shows "c \<in> set (columns out) \<longleftrightarrow> c \<in> set (columns data)"
  using assms
  by (auto simp add: normalize_commitment_term_def Let_def drop_columns_def loc_def assign_def
      split: sum.splits if_splits dest!: columns_natural_life_to_years)

lemma rows_drop_nulls:
  "rows (drop_nulls removeColumns data) =
     filter (\<lambda>r. list_all (\<lambda>c. r c \<noteq> Null)
                  (if removeColumns then filter (\<lambda>c. c \<notin> set nan_cols) (columns data)
                   else columns data))
       (map (\<lambda>r. if removeColumns then (\<lambda>c. if c \<in> set nan_cols then Null else r c) else r)
          (rows data))"
  by (simp add: drop_nulls_def dropna_def loc_def drop_columns_def)

lemma rows_consolidate:
  "list_all2 (\<lambda>r r'. \<forall>c. c \<noteq> name \<longrightarrow> r' c = r c) (rows data) (rows (consolidate name n data))"
  by (simp add: consolidate_def loc_assign_def Let_def list_all2_map2 list_all2_same)

lemma rows_reduce_cardinality:
  "list_all2 (\<lambda>r r'. \<forall>c. c \<notin> fst ` set tops \<longrightarrow> r' c = r c)
     (rows data) (rows (reduce_cardinality tops data))"
proof (induction tops arbitrary: data)
  case Nil
  then show ?case
    by (simp add: reduce_cardinality_def list_all2_same)
next
  case (Cons top tops)
  obtain name n where top: "top = (name, n)"
    by (cases top)
  have step: "reduce_cardinality (top # tops) data = reduce_cardinality tops (consolidate name n data)"
    by (simp add: reduce_cardinality_def top)
  show ?case
    unfolding step
    by (rule list_all2_trans [OF _ rows_consolidate [of name data n]
          Cons.IH [of "consolidate name n data"]])
       (simp add: top)
qed

lemma rows_clip_commitment_term:
  "rows (clip_commitment_term data) =
     map (\<lambda>r. r(''COMMITMENT_TERM'' := cell_clip_upper 110 (r ''COMMITMENT_TERM''))) (rows data)"
  by (simp add: clip_commitment_term_def assign_def)

text \<open>
  Up to the commitment term step the label, the term and the unit of a row are as in
  the record.
\<close>

lemma traced_until_gender:
  "\<exists>kept. subseq kept (rows data) \<and>
     list_all2 (\<lambda>r r'. label r' = label r
                       \<and> r' ''COMMITMENT_TERM'' = r ''COMMITMENT_TERM''
                       \<and> r' ''COMMITMENT_UNIT'' = r ''COMMITMENT_UNIT'')
       kept
       (rows (standardize_gender (standardize_race (exclude_non_prison removeColumns data))))"
proof -
  let ?T = "\<lambda>(r :: row) (r' :: row). label r' = label r
                       \<and> r' ''COMMITMENT_TERM'' = r ''COMMITMENT_TERM''
                       \<and> r' ''COMMITMENT_UNIT'' = r ''COMMITMENT_UNIT''"
  let ?xs = "rows data"
  let ?x1 = "filter (\<lambda>r. r ''SENTENCE_TYPE'' = Str ''Prison'') ?xs"
  let ?x2 = "map (\<lambda>r. if removeColumns
                         then (\<lambda>c. if c \<in> set [''SENTENCE_TYPE''] then Null else r c) else r) ?x1"
  let ?x3 = "map (\<lambda>r. r(''RACE'' := series_map standard_race_map (r ''RACE''))) ?x2"
  let ?x4 = "filter (\<lambda>r. r ''RACE'' \<noteq> Str ''Unknown'') ?x3"
  let ?x5 = "filter (\<lambda>r. r ''RACE'' \<noteq> Null) ?x4"
  let ?x6 = "map (\<lambda>r. if r ''GENDER'' \<in> {Str ''Male'', Str ''Female''} then r
                        else r(''GENDER'' := Str ''Unknown'')) ?x5"
  have "\<exists>kept. subseq kept ?xs \<and> list_all2 ?T kept ?xs"
    by (rule traced_mono [OF traced_start]) simp
  then have "\<exists>kept. subseq kept ?xs \<and> list_all2 ?T kept ?x1"
    by (rule traced_mono [OF traced_filter]) simp
  then have "\<exists>kept. subseq kept ?xs \<and> list_all2 ?T kept ?x2"
    by (rule traced_map) (simp add: label_def)
  then have "\<exists>kept. subseq kept ?xs \<and> list_all2 ?T kept ?x3"
    by (rule traced_map) (simp add: label_def)
  then have "\<exists>kept. subseq kept ?xs \<and> list_all2 ?T kept ?x4"
    by (rule traced_mono [OF traced_filter]) simp
  then have "\<exists>kept. subseq kept ?xs \<and> list_all2 ?T kept ?x5"
    by (rule traced_mono [OF traced_filter]) simp
  then have "\<exists>kept. subseq kept ?xs \<and> list_all2 ?T kept ?x6"
    by (rule traced_map) (simp add: label_def)
  then show ?thesis
    by (simp only: rows_standardize_gender rows_standardize_race rows_exclude_non_prison)
qed

text \<open>
  After the commitment term step the term of a row is a float or missing, and, unless
  the unit of the record is Natural Life, it is the converted term of the record divided
  by the divisor of its unit.
\<close>

lemma traced_normalize_commitment_term:
  assumes "normalize_commitment_term float removeColumns data = Inr out"
    and "\<exists>kept. subseq kept records \<and>
     list_all2 (\<lambda>r r'. label r' = label r
                       \<and> r' ''COMMITMENT_TERM'' = r ''COMMITMENT_TERM''
                       \<and> r' ''COMMITMENT_UNIT'' = r ''COMMITMENT_UNIT'') kept (rows data)"
  shows "\<exists>kept. subseq kept records \<and>
     list_all2 (\<lambda>r r'. label r' = label r
       \<and> (r' ''COMMITMENT_TERM'' = Null \<or> (\<exists>x. r' ''COMMITMENT_TERM'' = Num x)
            \<or> (\<exists>s. r' ''COMMITMENT_TERM'' = Infinity s))
       \<and> (r ''COMMITMENT_UNIT'' \<noteq> Str ''Natural Life'' \<longrightarrow>
            (\<exists>v. astype_float float (r ''COMMITMENT_TERM'') = Inr v
               \<and> r' ''COMMITMENT_TERM'' = cell_div v (divisor_col (r ''COMMITMENT_UNIT'')))))
       kept (rows out)"
proof -
  from normalize_commitment_term_rows [OF assms(1)] obtain converted m where
    c: "astype_column float ''COMMITMENT_TERM'' (rows data) = Inr converted"
    and r: "rows out =
         map (\<lambda>r. if removeColumns then (\<lambda>c. if c \<in> set [''COMMITMENT_UNIT''] then Null else r c) else r)
           (map (\<lambda>r. if r ''COMMITMENT_UNIT'' = Str ''Natural Life''
                      then r(''COMMITMENT_TERM'' := natural_life_years_of m)
                      else r)
              (map (\<lambda>r. r(''COMMITMENT_TERM'' :=
                            cell_div (r ''COMMITMENT_TERM'') (divisor_col (r ''COMMITMENT_UNIT''))))
                 (filter (\<lambda>r. isin (r ''COMMITMENT_UNIT'') commitment_term_units) converted)))"
    by blast
  let ?xs = "records"
  let ?A = "\<lambda>(r :: row) (r' :: row). label r' = label r
      \<and> r' ''COMMITMENT_UNIT'' = r ''COMMITMENT_UNIT''
      \<and> (\<exists>v. astype_float float (r ''COMMITMENT_TERM'') = Inr v \<and> r' ''COMMITMENT_TERM'' = v)"
  let ?D = "\<lambda>(r :: row) (r' :: row). label r' = label r
      \<and> r' ''COMMITMENT_UNIT'' = r ''COMMITMENT_UNIT''
      \<and> (\<exists>v. astype_float float (r ''COMMITMENT_TERM'') = Inr v
            \<and> r' ''COMMITMENT_TERM'' = cell_div v (divisor_col (r ''COMMITMENT_UNIT'')))"
  let ?B = "\<lambda>(r :: row) (r' :: row). label r' = label r
       \<and> (r' ''COMMITMENT_TERM'' = Null \<or> (\<exists>x. r' ''COMMITMENT_TERM'' = Num x)
            \<or> (\<exists>s. r' ''COMMITMENT_TERM'' = Infinity s))
       \<and> (r ''COMMITMENT_UNIT'' \<noteq> Str ''Natural Life'' \<longrightarrow>
            (\<exists>v. astype_float float (r ''COMMITMENT_TERM'') = Inr v
               \<and> r' ''COMMITMENT_TERM'' = cell_div v (divisor_col (r ''COMMITMENT_UNIT''))))"
  let ?x1 = "filter (\<lambda>r. isin (r ''COMMITMENT_UNIT'') commitment_term_units) converted"
  let ?x2 = "map (\<lambda>r. r(''COMMITMENT_TERM'' :=
                            cell_div (r ''COMMITMENT_TERM'') (divisor_col (r ''COMMITMENT_UNIT'')))) ?x1"
  let ?x3 = "map (\<lambda>r. if r ''COMMITMENT_UNIT'' = Str ''Natural Life''
                      then r(''COMMITMENT_TERM'' := natural_life_years_of m)
                      else r) ?x2"
  let ?x4 = "map (\<lambda>r. if removeColumns then (\<lambda>c. if c \<in> set [''COMMITMENT_UNIT''] then Null else r c) else r) ?x3"
  have "\<exists>kept. subseq kept ?xs \<and> list_all2 ?A kept converted"
    by (rule traced_rel [OF assms(2) astype_column_rows [OF c]]) (auto simp add: label_def)
  then have "\<exists>kept. subseq kept ?xs \<and> list_all2 ?A kept ?x1"
    by (rule traced_mono [OF traced_filter]) simp
  then have "\<exists>kept. subseq kept ?xs \<and> list_all2 ?D kept ?x2"
    by (rule traced_map) (auto simp add: label_def)
  then have "\<exists>kept. subseq kept ?xs \<and> list_all2 ?B kept ?x3"
    by (rule traced_map)
       (use cell_div_numeric natural_life_years_numeric in \<open>auto simp add: label_def; blast\<close>)
  then have "\<exists>kept. subseq kept ?xs \<and> list_all2 ?B kept ?x4"
    by (rule traced_map) (auto simp add: label_def)
  then show ?thesis
    by (simp only: r)
qed

lemma divisor_col_units:
  "divisor_col (Str ''Year(s)'') = 1"
  "divisor_col (Str ''Months'') = 12"
  "divisor_col (Str ''Days'') = 365"
  by (simp_all add: divisor_col_def term_divisors_def)

text \<open>The cleaned term of a record, by the cell that holds the record's term.\<close>

lemma cleaned_term_cases:
  assumes "astype_float float c = Inr v" and "c' = cell_clip_upper 110 (cell_div v d)"
  shows "(\<forall>x. c = Num x
             \<or> (\<exists>k. c = Integer k \<and> x = round64 (of_int k))
             \<or> (\<exists>s. c = Str s \<and> float s = Some (Finite x))
             \<or> (c = Flag True \<and> x = 1)
             \<or> (c = Flag False \<and> x = 0)
           \<longrightarrow> c' = Num (min (round64 (x / d)) 110))
       \<and> (c = Infinity True \<or> (\<exists>s. c = Str s \<and> float s = Some (Infinite True))
           \<longrightarrow> c' = Num 110)
       \<and> (c = Infinity False \<or> (\<exists>s. c = Str s \<and> float s = Some (Infinite False))
           \<longrightarrow> c' = Infinity False)"
proof (cases c)
  case (Integer k)
  with assms(1) obtain w where w: "float_of_int k = Inr w" and "v = cell_of w"
    by (auto simp add: astype_float_def split: sum.splits)
  moreover from w have "w = Finite (round64 (of_int k))"
    by (rule float_of_int_finite)
  ultimately have "v = Num (round64 (of_int k))"
    by (simp add: cell_of_def)
  with Integer assms(2) show ?thesis
    by (simp add: cell_div_def cell_clip_upper_def)
qed (use assms in \<open>auto simp add: astype_float_def cell_of_def cell_div_def cell_clip_upper_def
       split: option.splits\<close>)

lemma clipped_term_bound:
  assumes "c = Null \<or> (\<exists>x. c = Num x) \<or> (\<exists>s. c = Infinity s)" and "c \<noteq> Null"
  shows "(\<exists>y. cell_clip_upper 110 c = Num y \<and> y \<le> 110) \<or> cell_clip_upper 110 c = Infinity False"
  using assms by (auto simp add: cell_clip_upper_def split: if_splits)

text \<open>
  C4. The rows of a cleaned frame carry labels of records of the batch, in the order of
  the batch, so a record survives the cleaning when a row of the result carries its
  label, the position of the record in the batch. For a record whose unit is Year(s),
  Months or Days, the term of its row is the record's term as a float64 (a float as it
  is, an integer rounded, a string as \<open>float\<close> reads it, a boolean as 1 or 0), divided in
  float64 by 1, 12 or 365, and then cut to at most 110; an infinite term gives 110, a
  negative infinite one stays what it is, and there is no lower bound. The term of
  every row of the result is a number of at most 110 or negative infinity.
\<close>

theorem commitment_term_in_years:
  assumes "clean_data float removeColumns (DataFrame PREDICT_COLUMNS records) = Data out"
  shows "subseq (map label (rows out)) (map (\<lambda>i. Integer (int i)) [0 ..< length records])
     \<and> (\<forall>i < length records. \<forall>r' \<in> set (rows out). label r' = Integer (int i) \<longrightarrow>
         (\<forall>(u, d) \<in> set [(''Year(s)'', 1), (''Months'', 12), (''Days'', 365)].
            (records ! i) ''COMMITMENT_UNIT'' = Str u \<longrightarrow>
              (\<forall>x. (records ! i) ''COMMITMENT_TERM'' = Num x
                   \<or> (\<exists>k. (records ! i) ''COMMITMENT_TERM'' = Integer k \<and> x = round64 (of_int k))
                   \<or> (\<exists>s. (records ! i) ''COMMITMENT_TERM'' = Str s \<and> float s = Some (Finite x))
                   \<or> ((records ! i) ''COMMITMENT_TERM'' = Flag True \<and> x = 1)
                   \<or> ((records ! i) ''COMMITMENT_TERM'' = Flag False \<and> x = 0)
                 \<longrightarrow> r' ''COMMITMENT_TERM'' = Num (min (round64 (x / d)) 110))
            \<and> ((records ! i) ''COMMITMENT_TERM'' = Infinity True
                 \<or> (\<exists>s. (records ! i) ''COMMITMENT_TERM'' = Str s \<and> float s = Some (Infinite True))
                 \<longrightarrow> r' ''COMMITMENT_TERM'' = Num 110)
            \<and> ((records ! i) ''COMMITMENT_TERM'' = Infinity False
                 \<or> (\<exists>s. (records ! i) ''COMMITMENT_TERM'' = Str s \<and> float s = Some (Infinite False))
                 \<longrightarrow> r' ''COMMITMENT_TERM'' = Infinity False))
       \<and> ((\<exists>y. r' ''COMMITMENT_TERM'' = Num y \<and> y \<le> 110)
            \<or> r' ''COMMITMENT_TERM'' = Infinity False))"
proof -
  let ?data = "DataFrame PREDICT_COLUMNS records"
  let ?d3 = "standardize_gender (standardize_race (exclude_non_prison removeColumns ?data))"
  from assms obtain d4 where
    n: "normalize_commitment_term float removeColumns ?d3 = Inr d4"
    and out: "out = clip_commitment_term (reduce_cardinality top_ns (drop_nulls removeColumns d4))"
    by (auto simp add: clean_data_def Let_def split: if_splits sum.splits)
  let ?B = "\<lambda>(r :: row) (r' :: row). label r' = label r
       \<and> (r' ''COMMITMENT_TERM'' = Null \<or> (\<exists>x. r' ''COMMITMENT_TERM'' = Num x)
            \<or> (\<exists>s. r' ''COMMITMENT_TERM'' = Infinity s))
       \<and> (r ''COMMITMENT_UNIT'' \<noteq> Str ''Natural Life'' \<longrightarrow>
            (\<exists>v. astype_float float (r ''COMMITMENT_TERM'') = Inr v
               \<and> r' ''COMMITMENT_TERM'' = cell_div v (divisor_col (r ''COMMITMENT_UNIT''))))"
  let ?C = "\<lambda>(r :: row) (r' :: row). ?B r r' \<and> r' ''COMMITMENT_TERM'' \<noteq> Null"
  let ?R = "\<lambda>(r :: row) (r' :: row).
         (\<forall>(u, d) \<in> set [(''Year(s)'', 1), (''Months'', 12), (''Days'', 365)].
            r ''COMMITMENT_UNIT'' = Str u \<longrightarrow>
              (\<forall>x. r ''COMMITMENT_TERM'' = Num x
                   \<or> (\<exists>k. r ''COMMITMENT_TERM'' = Integer k \<and> x = round64 (of_int k))
                   \<or> (\<exists>s. r ''COMMITMENT_TERM'' = Str s \<and> float s = Some (Finite x))
                   \<or> (r ''COMMITMENT_TERM'' = Flag True \<and> x = 1)
                   \<or> (r ''COMMITMENT_TERM'' = Flag False \<and> x = 0)
                 \<longrightarrow> r' ''COMMITMENT_TERM'' = Num (min (round64 (x / d)) 110))
            \<and> (r ''COMMITMENT_TERM'' = Infinity True
                 \<or> (\<exists>s. r ''COMMITMENT_TERM'' = Str s \<and> float s = Some (Infinite True))
                 \<longrightarrow> r' ''COMMITMENT_TERM'' = Num 110)
            \<and> (r ''COMMITMENT_TERM'' = Infinity False
                 \<or> (\<exists>s. r ''COMMITMENT_TERM'' = Str s \<and> float s = Some (Infinite False))
                 \<longrightarrow> r' ''COMMITMENT_TERM'' = Infinity False))
       \<and> ((\<exists>y. r' ''COMMITMENT_TERM'' = Num y \<and> y \<le> 110)
            \<or> r' ''COMMITMENT_TERM'' = Infinity False)"
  let ?cols = "if removeColumns then filter (\<lambda>c. c \<notin> set nan_cols) (columns d4) else columns d4"
  let ?x5 = "map (\<lambda>r. if removeColumns then (\<lambda>c. if c \<in> set nan_cols then Null else r c) else r)
               (rows d4)"
  let ?x6 = "filter (\<lambda>r. list_all (\<lambda>c. r c \<noteq> Null) ?cols) ?x5"
  have "''COMMITMENT_TERM'' \<in> set (columns ?data)"
    by (simp add: DataFrame_def PREDICT_COLUMNS_def PREDICT_SCHEMA_def)
  then have "''COMMITMENT_TERM'' \<in> set (columns ?d3)"
    by (simp add: columns_standardize_gender columns_standardize_race
        columns_exclude_non_prison)
  then have "''COMMITMENT_TERM'' \<in> set (columns d4)"
    by (simp add: columns_normalize_commitment_term [OF n])
  then have term_col: "''COMMITMENT_TERM'' \<in> set ?cols"
    by (simp add: nan_cols_def)
  have "\<exists>kept. subseq kept (RangeIndex records) \<and>
     list_all2 (\<lambda>r r'. label r' = label r
                       \<and> r' ''COMMITMENT_TERM'' = r ''COMMITMENT_TERM''
                       \<and> r' ''COMMITMENT_UNIT'' = r ''COMMITMENT_UNIT'') kept (rows ?d3)"
    using traced_until_gender [of ?data removeColumns] by (simp add: rows_DataFrame)
  then have "\<exists>kept. subseq kept (RangeIndex records) \<and> list_all2 ?B kept (rows d4)"
    by (rule traced_normalize_commitment_term [OF n])
  then have "\<exists>kept. subseq kept (RangeIndex records) \<and> list_all2 ?B kept ?x5"
    by (rule traced_map) (simp add: nan_cols_def label_def)
  then have "\<exists>kept. subseq kept (RangeIndex records) \<and> list_all2 ?C kept ?x6"
    by (rule traced_mono [OF traced_filter]) (use term_col in \<open>auto simp add: list_all_iff\<close>)
  then have "\<exists>kept. subseq kept (RangeIndex records) \<and>
      list_all2 ?C kept (rows (drop_nulls removeColumns d4))"
    by (simp only: rows_drop_nulls)
  then have "\<exists>kept. subseq kept (RangeIndex records) \<and>
      list_all2 ?C kept (rows (reduce_cardinality top_ns (drop_nulls removeColumns d4)))"
    by (rule traced_rel [OF _ rows_reduce_cardinality]) (auto simp add: top_ns_def label_def)
  then have clipped: "\<exists>kept. subseq kept (RangeIndex records) \<and>
      list_all2 (\<lambda>r r''. \<exists>r'. ?C r r' \<and> label r'' = label r'
          \<and> r'' ''COMMITMENT_TERM'' = cell_clip_upper 110 (r' ''COMMITMENT_TERM''))
        kept (rows out)"
    unfolding out rows_clip_commitment_term by (rule traced_map) (auto simp add: label_def)
  have step: "label r'' = label r \<and> ?R r r''"
    if "\<exists>r'. ?C r r' \<and> label r'' = label r'
          \<and> r'' ''COMMITMENT_TERM'' = cell_clip_upper 110 (r' ''COMMITMENT_TERM'')" for r r'' :: row
  proof -
    from that obtain r' where C: "?C r r'" and l: "label r'' = label r'"
      and t: "r'' ''COMMITMENT_TERM'' = cell_clip_upper 110 (r' ''COMMITMENT_TERM'')"
      by blast
    from C have bound: "(\<exists>y. r'' ''COMMITMENT_TERM'' = Num y \<and> y \<le> 110)
            \<or> r'' ''COMMITMENT_TERM'' = Infinity False"
      unfolding t by (intro clipped_term_bound) blast+
    have units: "(\<forall>x. r ''COMMITMENT_TERM'' = Num x
                   \<or> (\<exists>k. r ''COMMITMENT_TERM'' = Integer k \<and> x = round64 (of_int k))
                   \<or> (\<exists>s. r ''COMMITMENT_TERM'' = Str s \<and> float s = Some (Finite x))
                   \<or> (r ''COMMITMENT_TERM'' = Flag True \<and> x = 1)
                   \<or> (r ''COMMITMENT_TERM'' = Flag False \<and> x = 0)
                 \<longrightarrow> r'' ''COMMITMENT_TERM'' = Num (min (round64 (x / d)) 110))
            \<and> (r ''COMMITMENT_TERM'' = Infinity True
                 \<or> (\<exists>s. r ''COMMITMENT_TERM'' = Str s \<and> float s = Some (Infinite True))
                 \<longrightarrow> r'' ''COMMITMENT_TERM'' = Num 110)
            \<and> (r ''COMMITMENT_TERM'' = Infinity False
                 \<or> (\<exists>s. r ''COMMITMENT_TERM'' = Str s \<and> float s = Some (Infinite False))
                 \<longrightarrow> r'' ''COMMITMENT_TERM'' = Infinity False)"
      if u: "(u, d) \<in> set [(''Year(s)'', 1), (''Months'', 12), (''Days'', 365 :: real)]"
        and ru: "r ''COMMITMENT_UNIT'' = Str u" for u d
    proof -
      from u ru have nl: "r ''COMMITMENT_UNIT'' \<noteq> Str ''Natural Life''"
        and d: "divisor_col (r ''COMMITMENT_UNIT'') = d"
        by (auto simp add: divisor_col_units)
      with C obtain v where v: "astype_float float (r ''COMMITMENT_TERM'') = Inr v"
        and "r' ''COMMITMENT_TERM'' = cell_div v d"
        by auto
      with t have "r'' ''COMMITMENT_TERM'' = cell_clip_upper 110 (cell_div v d)"
        by simp
      with v show ?thesis
        by (rule cleaned_term_cases)
    qed
    from C l have "label r'' = label r"
      by simp
    with units bound show ?thesis
      by blast
  qed
  from clipped have "\<exists>kept. subseq kept (RangeIndex records) \<and>
      list_all2 (\<lambda>r r''. label r'' = label r \<and> ?R r r'') kept (rows out)"
    by (rule traced_mono) (rule step)
  then show ?thesis
    by (rule traced_labels) simp
qed

lemma terms_batch_labels:
  "map_option (map fst)
     (terms_of (clean_data decimal_float True (DataFrame PREDICT_COLUMNS terms_batch)))
     = Some [Integer 0, Integer 2, Integer 3, Integer 4]"
  by code_simp

lemma term_record_cells:
  "term_record t u ''COMMITMENT_TERM'' = t"
  "term_record t u ''COMMITMENT_UNIT'' = Str u"
  by (simp_all add: term_record_def)

lemma decimal_float_examples:
  "decimal_float ''24'' = Some (Finite 24)"
  "decimal_float ''inf'' = Some (Infinite True)"
  by code_simp+

lemma days_in_years: "round64 (100 / 365) \<le> 110"
  by code_simp

theorem commitment_term_in_years_witness:
  "\<exists>out. clean_data decimal_float True (DataFrame PREDICT_COLUMNS terms_batch) = Data out
     \<and> map (\<lambda>r. (label r, r ''COMMITMENT_TERM'')) (rows out)
         = [(Integer 0, Num 2), (Integer 2, Num (round64 (100 / 365))),
            (Integer 3, Num 110), (Integer 4, Num 110)]"
proof -
  from terms_batch_labels obtain out where
    o: "clean_data decimal_float True (DataFrame PREDICT_COLUMNS terms_batch) = Data out"
    and "map label (rows out) = [Integer 0, Integer 2, Integer 3, Integer 4]"
    by (cases "clean_data decimal_float True (DataFrame PREDICT_COLUMNS terms_batch)")
       (auto simp add: terms_of_def o_def)
  then obtain a b c d where rs: "rows out = [a, b, c, d]"
    and l: "label a = Integer 0" "label b = Integer 2" "label c = Integer 3" "label d = Integer 4"
    by (auto simp add: map_eq_Cons_conv)
  note cleaned = commitment_term_in_years [OF o, THEN conjunct2, rule_format]
  have "(0 :: nat) < length terms_batch" and "a \<in> set (rows out)" and "label a = Integer (int 0)"
    by (simp_all add: terms_batch_def rs l)
  from cleaned [OF this] have ta: "a ''COMMITMENT_TERM'' = Num 2"
    by (simp add: terms_batch_def term_record_cells decimal_float_examples round64_numeral)
  have "(2 :: nat) < length terms_batch" and "b \<in> set (rows out)" and "label b = Integer (int 2)"
    by (simp_all add: terms_batch_def rs l)
  from cleaned [OF this] have tb: "b ''COMMITMENT_TERM'' = Num (round64 (100 / 365))"
    using days_in_years
    by (simp add: terms_batch_def term_record_cells decimal_float_examples round64_numeral)
  have "(3 :: nat) < length terms_batch" and "c \<in> set (rows out)" and "label c = Integer (int 3)"
    by (simp_all add: terms_batch_def rs l)
  from cleaned [OF this] have tc: "c ''COMMITMENT_TERM'' = Num 110"
    by (simp add: terms_batch_def term_record_cells decimal_float_examples round64_numeral)
  have "(4 :: nat) < length terms_batch" and "d \<in> set (rows out)" and "label d = Integer (int 4)"
    by (simp_all add: terms_batch_def rs l)
  from cleaned [OF this] have td: "d ''COMMITMENT_TERM'' = Num 110"
    by (simp add: terms_batch_def term_record_cells decimal_float_examples round64_numeral)
  have "map (\<lambda>r. (label r, r ''COMMITMENT_TERM'')) (rows out)
         = [(Integer 0, Num 2), (Integer 2, Num (round64 (100 / 365))),
            (Integer 3, Num 110), (Integer 4, Num 110)]"
    by (simp add: rs l ta tb tc td)
  with o show ?thesis
    by (intro exI [of _ out] conjI)
qed

end
